theory Spec2Isabelle
  imports Complex_Main "HOL-Library.Log_Nat"
begin

section \<open>Data model\<close>

text \<open>
  The embedded program is \<^verbatim>\<open>src/data/feature_engineering.py\<close>: the function
  \<^verbatim>\<open>feature_engineering_noaa_climate_data\<close> reads one station's daily
  observations and returns a wide table of converted values, calendar columns, lagged
  columns and a rolling mean over the same window one year earlier.

  A pandas DataFrame is modelled column by column, as pandas stores it: an index of row
  labels and an ordered association list from column names to columns of equal length.
  A float64 cell is the rational number the double stands for, or missing (\<open>None\<close> stands
  for NaN). The arithmetic of the unit conversion and the cast of integers are rounded as
  IEEE 754 binary64 rounds them (\<open>float64\<close> below). The mean of a rolling window is the
  exact mean of the five doubles: the order in which pandas accumulates the window, and so
  the last bits of that mean, are outside the model, and so are the infinities. A datetime
  cell is a calendar date or missing (NaT).
\<close>

datatype cvar = PRCP | TMIN | TAVG | TMAX

definition climate_vars :: "cvar list" where
  "climate_vars = [PRCP, TMIN, TAVG, TMAX]"

text \<open>
  Column names of a frame after line 22, but for \<^verbatim>\<open>DATE\<close>, which a frame carries apart.
  \<open>Clim v\<close> is the column named after the variable itself, \<open>Lag v i\<close> is the formatted name
  \<^verbatim>\<open>f'{var}_lag_{i}'\<close> (so \<open>Lag PRCP (- 1)\<close> is \<^verbatim>\<open>PRCP_lag_-1\<close>) and \<open>Mean_5d_window v\<close> is
  \<^verbatim>\<open>f'{var}_mean_5d_window'\<close>.
\<close>

datatype colname =
    Clim cvar | YEAR | MONTH | DAY_OF_YEAR | WEEK_OF_YEAR | SEASON
  | Lag cvar int | Mean_5d_window cvar

record date =
  year :: int
  month :: nat
  day :: nat

type_synonym series = "rat option list"

text \<open>
  What \<^verbatim>\<open>pd.read_csv(file_path, parse_dates=['DATE'])\<close> makes of the columns the function
  uses; the index it gives the rows is always \<open>0, 1, ..., n - 1\<close>.

  A numeric column is read as float64, or as int64 when every cell is an integer (an int64
  column has no missing cell). The \<^verbatim>\<open>DATE\<close> column is datetime64 when its cells were read as
  dates; it keeps the dtype object, with the text of its cells, when one of them is not a
  date, and also when the file has a header and no row. A column that holds no cell at all
  behaves in lines 22 to 28 as an empty numeric column does, whatever its dtype, and is
  written as one. A climate column with a cell that is not a number is not a value of this
  type: the model says nothing about such a file.
\<close>

datatype numeric =
    Float64 series
  | Int64 "int list"

datatype datelike =
    Datetime64 "date option list"
  | Object "string list"

text \<open>A field is \<open>None\<close> when the file has no column of that name. Further columns of the
  file are dropped at line 22 and are not recorded.\<close>

record csv =
  csv_DATE :: "datelike option"
  csv_climate :: "cvar \<Rightarrow> numeric option"

datatype error =
    ValueError
  | KeyError "colname list"
  | AttributeError

record frame =
  index :: "nat list"
  cols :: "(colname \<times> series) list"

text \<open>A frame that still carries its \<^verbatim>\<open>DATE\<close> column.\<close>

record dated_frame = frame +
  DATE_column :: datelike


section \<open>Rounding to binary64\<close>

text \<open>
  \<open>float64 x\<close> is the double nearest to \<open>x\<close>, ties to the even significand: the result of
  one IEEE 754 operation whose exact result is \<open>x\<close>, and of the cast of an integer \<open>x\<close> to
  float. \<open>binade x\<close> is the exponent \<open>e\<close> with \<open>2 ^ e \<le> \<bar>x\<bar> < 2 ^ (e + 1)\<close>; a double has 53
  significant bits, and below \<open>2 ^ - 1022\<close> the spacing stays \<open>2 ^ - 1074\<close>. No operation of
  this program overflows on doubles (\<open>x / 10 * 1.8 + 32\<close> stays below \<open>2 ^ 1024\<close>, and so does
  a 64-bit integer), so the infinite results need no case.
\<close>

definition pow2 :: "int \<Rightarrow> rat" where
  "pow2 k = (if 0 \<le> k then 2 ^ nat k else 1 / 2 ^ nat (- k))"

definition binade :: "rat \<Rightarrow> int" where
  "binade x =
     (let (a, b) = quotient_of \<bar>x\<bar>;
          d = bitlen a - bitlen b
      in if pow2 d \<le> \<bar>x\<bar> then d else d - 1)"

definition round_half_even :: "rat \<Rightarrow> int" where
  "round_half_even q =
     (let f = \<lfloor>q\<rfloor>;
          r = q - of_int f
      in if r < 1 / 2 then f
         else if 1 / 2 < r then f + 1
         else if even f then f else f + 1)"

definition float64 :: "rat \<Rightarrow> rat" where
  "float64 x =
     (if x = 0 then 0
      else (let u = pow2 (max (binade x) (- 1022) - 52)
            in of_int (round_half_even (x / u)) * u))"

text \<open>The values of a numeric column as doubles: what a division, \<^verbatim>\<open>shift\<close>, \<^verbatim>\<open>rolling\<close> and
  \<^verbatim>\<open>astype(float)\<close> all make of an int64 column.\<close>

fun as_float64 :: "numeric \<Rightarrow> series" where
  "as_float64 (Float64 s) = s"
| "as_float64 (Int64 js) = map (\<lambda>j. Some (float64 (of_int j))) js"


section \<open>Calendar accessors\<close>

text \<open>The accessors \<^verbatim>\<open>.dt.year\<close>, \<^verbatim>\<open>.dt.month\<close>, \<^verbatim>\<open>.dt.dayofyear\<close> and
  \<^verbatim>\<open>.dt.isocalendar().week\<close> of the proleptic Gregorian calendar.\<close>

definition is_leap :: "int \<Rightarrow> bool" where
  "is_leap y \<longleftrightarrow> y mod 4 = 0 \<and> (y mod 100 \<noteq> 0 \<or> y mod 400 = 0)"

definition days_in_month :: "int \<Rightarrow> nat \<Rightarrow> nat" where
  "days_in_month y m =
     (if m = 2 then (if is_leap y then 29 else 28)
      else if m = 4 \<or> m = 6 \<or> m = 9 \<or> m = 11 then 30 else 31)"

definition dayofyear :: "date \<Rightarrow> nat" where
  "dayofyear d = sum_list (map (days_in_month (year d)) [1..<month d]) + day d"

definition days_before_year :: "int \<Rightarrow> int" where
  "days_before_year y = (y - 1) * 365 + (y - 1) div 4 - (y - 1) div 100 + (y - 1) div 400"

definition toordinal :: "date \<Rightarrow> int" where
  "toordinal d = days_before_year (year d) + int (dayofyear d)"

definition isoweek1monday :: "int \<Rightarrow> int" where
  "isoweek1monday y =
     (let firstday = days_before_year y + 1;
          firstweekday = (firstday + 6) mod 7;
          week1monday = firstday - firstweekday
      in if firstweekday > 3 then week1monday + 7 else week1monday)"

definition isoweek :: "date \<Rightarrow> int" where
  "isoweek d =
     (let today = toordinal d;
          week = (today - isoweek1monday (year d)) div 7
      in if week < 0 then (today - isoweek1monday (year d - 1)) div 7 + 1
         else if week \<ge> 52 \<and> today \<ge> isoweek1monday (year d + 1) then 1
         else week + 1)"

text \<open>Line 43: \<^verbatim>\<open>(df['DATE'].dt.month % 12 + 3) // 3\<close>.\<close>

definition season :: "nat \<Rightarrow> nat" where
  "season m = (m mod 12 + 3) div 3"


section \<open>Series and frame operations\<close>

text \<open>\<^verbatim>\<open>Series.shift(k)\<close>: the value at position \<open>p\<close> moves to position \<open>p + k\<close>; positions
  left without a value are missing. The length and the index are unchanged.\<close>

definition shift :: "int \<Rightarrow> 'a option list \<Rightarrow> 'a option list" where
  "shift k xs =
     map (\<lambda>p. if k \<le> int p \<and> int p - k < int (length xs) then xs ! nat (int p - k) else None)
       [0..<length xs]"

text \<open>\<^verbatim>\<open>Series.rolling(window=w).mean()\<close>: \<^verbatim>\<open>min_periods\<close> defaults to the window size, so
  the result at position \<open>p\<close> is the mean of the \<open>w\<close> values ending at \<open>p\<close> when there are
  \<open>w\<close> of them and none is missing, and is missing otherwise.\<close>

definition rolling_mean :: "nat \<Rightarrow> series \<Rightarrow> series" where
  "rolling_mean w xs =
     map (\<lambda>p. if p + 1 < w then None
              else (let win = take w (drop (p + 1 - w) xs)
                    in if list_all (\<lambda>x. x \<noteq> None) win
                       then Some (sum_list (map the win) / of_nat w) else None))
       [0..<length xs]"

text \<open>Boolean indexing \<^verbatim>\<open>df[keep]\<close> keeps the rows whose keep entry is true, in order,
  with their index labels.\<close>

definition positions :: "bool list \<Rightarrow> nat list" where
  "positions keep = filter (\<lambda>p. keep ! p) [0..<length keep]"

definition take_rows :: "nat list \<Rightarrow> 'a list \<Rightarrow> 'a list" where
  "take_rows ps xs = map (\<lambda>p. xs ! p) (filter (\<lambda>p. p < length xs) ps)"

fun datelike_rows :: "nat list \<Rightarrow> datelike \<Rightarrow> datelike" where
  "datelike_rows ps (Datetime64 ds) = Datetime64 (take_rows ps ds)"
| "datelike_rows ps (Object ss) = Object (take_rows ps ss)"

definition boolean_index :: "bool list \<Rightarrow> dated_frame \<Rightarrow> dated_frame" where
  "boolean_index keep df =
     (let ps = positions keep
      in \<lparr>index = take_rows ps (index df),
          cols = map (\<lambda>(c, s). (c, take_rows ps s)) (cols df),
          DATE_column = datelike_rows ps (DATE_column df)\<rparr>)"

text \<open>The accessor \<^verbatim>\<open>.dt\<close> raises \<^verbatim>\<open>AttributeError\<close> on a column that is not datetime-like.\<close>

fun dt :: "datelike \<Rightarrow> error + date option list" where
  "dt (Datetime64 ds) = Inr ds"
| "dt (Object ss) = Inl AttributeError"

text \<open>\<^verbatim>\<open>df[c]\<close> raises \<^verbatim>\<open>KeyError\<close> for a column the frame does not have.\<close>

definition getitem :: "'a frame_scheme \<Rightarrow> colname \<Rightarrow> error + series" where
  "getitem df c = (case map_of (cols df) c of None \<Rightarrow> Inl (KeyError [c]) | Some s \<Rightarrow> Inr s)"

text \<open>\<^verbatim>\<open>df[c] = s\<close> replaces the column in place when the frame has it and appends it as
  the last column otherwise.\<close>

definition setitem :: "colname \<Rightarrow> series \<Rightarrow> dated_frame \<Rightarrow> dated_frame" where
  "setitem c s df =
     df\<lparr>cols := (if c \<in> fst ` set (cols df)
                 then map (\<lambda>(k, x). if k = c then (k, s) else (k, x)) (cols df)
                 else cols df @ [(c, s)])\<rparr>"

definition and_then :: "error + 'a \<Rightarrow> ('a \<Rightarrow> error + 'b) \<Rightarrow> error + 'b" where
  "and_then r f = (case r of Inl e \<Rightarrow> Inl e | Inr x \<Rightarrow> f x)"

text \<open>A \<^verbatim>\<open>for\<close> loop whose body may raise.\<close>

fun for_each :: "('a \<Rightarrow> 's \<Rightarrow> error + 's) \<Rightarrow> 'a list \<Rightarrow> 's \<Rightarrow> error + 's" where
  "for_each body [] s = Inr s"
| "for_each body (x # xs) s = and_then (body x s) (for_each body xs)"

text \<open>\<^verbatim>\<open>df.dropna()\<close> keeps the rows that have no missing value in any column.\<close>

definition notna_rows :: "frame \<Rightarrow> bool list" where
  "notna_rows df =
     map (\<lambda>p. list_all (\<lambda>(c, s). p < length s \<and> s ! p \<noteq> None) (cols df)) [0..<length (index df)]"

definition dropna :: "frame \<Rightarrow> frame" where
  "dropna df =
     (let ps = positions (notna_rows df)
      in \<lparr>index = take_rows ps (index df),
          cols = map (\<lambda>(c, s). (c, take_rows ps s)) (cols df)\<rparr>)"


section \<open>The feature builder\<close>

text \<open>Line 18: \<^verbatim>\<open>read_csv\<close> raises \<^verbatim>\<open>ValueError\<close> when the file has no column \<^verbatim>\<open>DATE\<close> to
  parse as dates. Line 22: the selection \<^verbatim>\<open>df[['DATE'] + climate_vars]\<close> raises \<^verbatim>\<open>KeyError\<close>
  with the list of the names the frame does not have. The frame keeps the four numeric
  columns as doubles: an int64 column is cast where the code casts it, in the division of
  lines 26 to 28, in every \<^verbatim>\<open>shift\<close> and at line 63, each time to the same doubles.\<close>

fun nrows :: "datelike \<Rightarrow> nat" where
  "nrows (Datetime64 ds) = length ds"
| "nrows (Object ss) = length ss"

definition selected :: "csv \<Rightarrow> cvar \<Rightarrow> error + series" where
  "selected t v =
     (case csv_climate t v of
        None \<Rightarrow> Inl (KeyError [Clim v])
      | Some c \<Rightarrow> Inr (as_float64 c))"

definition select_columns :: "csv \<Rightarrow> error + dated_frame" where
  "select_columns t =
     (case csv_DATE t of
        None \<Rightarrow> Inl ValueError
      | Some dc \<Rightarrow>
          (let missing = filter (\<lambda>v. csv_climate t v = None) climate_vars
           in if missing \<noteq> [] then Inl (KeyError (map Clim missing))
              else
                and_then (selected t PRCP) (\<lambda>prcp.
                and_then (selected t TMIN) (\<lambda>tmin.
                and_then (selected t TAVG) (\<lambda>tavg.
                and_then (selected t TMAX) (\<lambda>tmax.
                  Inr \<lparr>index = [0..<nrows dc],
                       cols = [(Clim PRCP, prcp), (Clim TMIN, tmin), (Clim TAVG, tavg),
                               (Clim TMAX, tmax)],
                       DATE_column = dc\<rparr>))))))"

text \<open>Lines 26 to 28: \<^verbatim>\<open>df[c] = df[c] / 10 * (9 / 5) + 32\<close>, three float64 operations on each
  cell, with the double \<^verbatim>\<open>9 / 5\<close>.\<close>

definition to_fahrenheit :: "rat \<Rightarrow> rat" where
  "to_fahrenheit x = float64 (float64 (float64 (x / 10) * float64 (9 / 5)) + 32)"

definition convert_temperature :: "cvar \<Rightarrow> dated_frame \<Rightarrow> error + dated_frame" where
  "convert_temperature v df =
     and_then (getitem df (Clim v)) (\<lambda>s.
       Inr (setitem (Clim v) (map (map_option to_fahrenheit) s) df))"

text \<open>Lines 31 and 33: the \<^verbatim>\<open>YEAR\<close> column, read through \<^verbatim>\<open>.dt\<close>, and the rows with
  \<^verbatim>\<open>YEAR >= 2013\<close>. A comparison with a missing year is false.\<close>

definition add_year :: "dated_frame \<Rightarrow> error + dated_frame" where
  "add_year df =
     and_then (dt (DATE_column df)) (\<lambda>ds.
       Inr (setitem YEAR (map (map_option (\<lambda>d. of_int (year d))) ds) df))"

definition drop_before_2013 :: "dated_frame \<Rightarrow> error + dated_frame" where
  "drop_before_2013 df =
     and_then (getitem df YEAR) (\<lambda>ys.
       Inr (boolean_index (map (\<lambda>y. case y of None \<Rightarrow> False | Some y \<Rightarrow> 2013 \<le> y) ys) df))"

text \<open>Lines 34 to 43: the calendar columns of the remaining rows, each read through \<^verbatim>\<open>.dt\<close>.\<close>

definition add_calendar :: "dated_frame \<Rightarrow> error + dated_frame" where
  "add_calendar df =
     and_then (dt (DATE_column df)) (\<lambda>ds.
       Inr (setitem SEASON (map (map_option (\<lambda>d. of_nat (season (month d)))) ds)
           (setitem WEEK_OF_YEAR (map (map_option (\<lambda>d. of_int (isoweek d))) ds)
           (setitem DAY_OF_YEAR (map (map_option (\<lambda>d. of_nat (dayofyear d))) ds)
           (setitem MONTH (map (map_option (\<lambda>d. of_nat (month d))) ds) df)))))"

text \<open>Lines 47 to 55: for one variable, the thirty backward lags \<^verbatim>\<open>range(1, 30 + 1)\<close> and the
  four forward lags \<^verbatim>\<open>range(-1, -4 - 1, -1)\<close>, concatenated to the frame as new columns. The
  lagged series carry the index of the frame, so \<^verbatim>\<open>pd.concat(..., axis=1)\<close> aligns row with row
  and appends the columns in the order of the two dictionaries.\<close>

definition backward_lags :: "int list" where
  "backward_lags = [1..30]"

definition forward_lags :: "int list" where
  "forward_lags = map uminus [1..4]"

definition add_lags :: "cvar \<Rightarrow> dated_frame \<Rightarrow> error + dated_frame" where
  "add_lags v df =
     and_then (getitem df (Clim v)) (\<lambda>s.
       Inr (df\<lparr>cols := cols df
                 @ map (\<lambda>i. (Lag v i, shift i s)) backward_lags
                 @ map (\<lambda>i. (Lag v i, shift i s)) forward_lags\<rparr>))"

text \<open>Lines 59 and 60: \<^verbatim>\<open>df[var].shift(365).rolling(window=5).mean()\<close>.\<close>

definition add_mean_5d_window :: "cvar \<Rightarrow> dated_frame \<Rightarrow> error + dated_frame" where
  "add_mean_5d_window v df =
     and_then (getitem df (Clim v)) (\<lambda>s.
       Inr (setitem (Mean_5d_window v) (rolling_mean 5 (shift 365 s)) df))"

text \<open>Line 63: the \<^verbatim>\<open>DATE\<close> column is dropped and every column is cast to float64. The four
  climate columns hold doubles since line 22 (\<open>as_float64\<close>), the calendar columns hold small
  integers and the other columns were computed as float64, so the cast changes no value of
  the frame.\<close>

definition drop_DATE :: "dated_frame \<Rightarrow> frame" where
  "drop_DATE df = \<lparr>index = index df, cols = cols df\<rparr>"

text \<open>Lines 18 to 63: the frame before the rows with missing values are dropped.\<close>

definition engineered :: "csv \<Rightarrow> error + frame" where
  "engineered t =
     and_then (select_columns t) (\<lambda>df.
     and_then (convert_temperature TMIN df) (\<lambda>df.
     and_then (convert_temperature TAVG df) (\<lambda>df.
     and_then (convert_temperature TMAX df) (\<lambda>df.
     and_then (add_year df) (\<lambda>df.
     and_then (drop_before_2013 df) (\<lambda>df.
     and_then (add_calendar df) (\<lambda>df.
     and_then (for_each add_lags climate_vars df) (\<lambda>df.
     and_then (for_each add_mean_5d_window climate_vars df) (\<lambda>df.
       Inr (drop_DATE df))))))))))"

text \<open>Lines 12 to 68.\<close>

definition feature_engineering_noaa_climate_data :: "csv \<Rightarrow> error + frame" where
  "feature_engineering_noaa_climate_data t = and_then (engineered t) (\<lambda>df. Inr (dropna df))"


section \<open>Vocabulary of the statements\<close>

text \<open>A table \<open>t\<close> read from a file has the required columns, \<^verbatim>\<open>DATE\<close> read as dates:
  \<open>ds\<close> is its \<^verbatim>\<open>DATE\<close> column, \<open>x v\<close> the raw column of the variable \<open>v\<close> as doubles, and all
  five have the same number of rows.\<close>

definition reads_as :: "csv \<Rightarrow> date option list \<Rightarrow> (cvar \<Rightarrow> series) \<Rightarrow> bool" where
  "reads_as t ds x \<longleftrightarrow>
     csv_DATE t = Some (Datetime64 ds) \<and>
     list_all (\<lambda>v. map_option as_float64 (csv_climate t v) = Some (x v)
                  \<and> length (x v) = length ds)
       climate_vars"

definition kept_rows :: "date option list \<Rightarrow> nat list" where
  "kept_rows ds =
     positions (map (\<lambda>d. case d of None \<Rightarrow> False | Some d \<Rightarrow> 2013 \<le> year d) ds)"

definition converted :: "cvar \<Rightarrow> series \<Rightarrow> series" where
  "converted v s = (if v = PRCP then s else map (map_option to_fahrenheit) s)"

definition filtered :: "date option list \<Rightarrow> (cvar \<Rightarrow> series) \<Rightarrow> cvar \<Rightarrow> series" where
  "filtered ds x v = map (\<lambda>p. converted v (x v) ! p) (kept_rows ds)"

definition kept_dates :: "date option list \<Rightarrow> date option list" where
  "kept_dates ds = map (\<lambda>p. ds ! p) (kept_rows ds)"

text \<open>The value a result holds in column \<open>c\<close> at position \<open>p\<close>: \<open>Some None\<close> is a missing
  value, \<open>None\<close> says that there is no such cell (an error, no such column, or no such row).\<close>

definition cell :: "error + frame \<Rightarrow> colname \<Rightarrow> nat \<Rightarrow> rat option option" where
  "cell r c p =
     (case r of
        Inl e \<Rightarrow> None
      | Inr df \<Rightarrow>
          (case map_of (cols df) c of
             None \<Rightarrow> None
           | Some s \<Rightarrow> if p < length s then Some (s ! p) else None))"

text \<open>The mean of a window as float arithmetic gives it: missing as soon as one value is.\<close>

definition mean_of :: "rat option list \<Rightarrow> rat option" where
  "mean_of xs =
     (if xs \<noteq> [] \<and> list_all (\<lambda>x. x \<noteq> None) xs
      then Some (sum_list (map the xs) / of_nat (length xs)) else None)"

text \<open>The index labels of a result: the positions its rows had in the file.\<close>

definition row_labels :: "error + frame \<Rightarrow> nat list option" where
  "row_labels r = (case r of Inl e \<Rightarrow> None | Inr df \<Rightarrow> Some (index df))"

text \<open>A whole column of a result.\<close>

definition column :: "error + frame \<Rightarrow> colname \<Rightarrow> series option" where
  "column r c = (case r of Inl e \<Rightarrow> None | Inr df \<Rightarrow> map_of (cols df) c)"

text \<open>The column names of a result, in order.\<close>

definition column_names :: "error + frame \<Rightarrow> colname list option" where
  "column_names r = (case r of Inl e \<Rightarrow> None | Inr df \<Rightarrow> Some (map fst (cols df)))"

text \<open>The positions of the filtered series whose row is complete in the frame \<open>df\<close>.\<close>

definition complete_rows :: "frame \<Rightarrow> nat list" where
  "complete_rows df = positions (notna_rows df)"


section \<open>Example inputs\<close>

text \<open>A station file of six days around the turn of the year 2013, with one missing
  temperature.\<close>

definition sample_dates :: "date option list" where
  "sample_dates =
     [Some \<lparr>year = 2012, month = 12, day = 30\<rparr>, Some \<lparr>year = 2012, month = 12, day = 31\<rparr>,
      Some \<lparr>year = 2013, month = 1, day = 1\<rparr>, Some \<lparr>year = 2013, month = 1, day = 2\<rparr>,
      Some \<lparr>year = 2013, month = 1, day = 3\<rparr>, Some \<lparr>year = 2013, month = 1, day = 4\<rparr>]"

definition sample_values :: "cvar \<Rightarrow> series" where
  "sample_values v =
     (case v of
        PRCP \<Rightarrow> [Some 0, Some 5, Some 12, Some 0, Some 7, Some 3]
      | TMIN \<Rightarrow> [Some (- 20), Some (- 35), Some 100, Some 0, None, Some (- 50)]
      | TAVG \<Rightarrow> [Some 10, Some 5, Some 150, Some 50, Some 40, Some 0]
      | TMAX \<Rightarrow> [Some 40, Some 45, Some 200, Some 100, Some 90, Some 50])"

definition sample_table :: csv where
  "sample_table =
     \<lparr>csv_DATE = Some (Datetime64 sample_dates),
      csv_climate = (\<lambda>v. Some (Float64 (sample_values v)))\<rparr>"

text \<open>A station file whose observations all predate 2013.\<close>

definition dates_2012 :: "date option list" where
  "dates_2012 =
     [Some \<lparr>year = 2012, month = 12, day = 29\<rparr>, Some \<lparr>year = 2012, month = 12, day = 30\<rparr>,
      Some \<lparr>year = 2012, month = 12, day = 31\<rparr>]"

definition values_2012 :: "cvar \<Rightarrow> series" where
  "values_2012 v =
     (case v of
        PRCP \<Rightarrow> [Some 3, Some 0, Some 5]
      | TMIN \<Rightarrow> [Some (- 10), Some (- 20), Some (- 35)]
      | TAVG \<Rightarrow> [Some 20, Some 10, Some 5]
      | TMAX \<Rightarrow> [Some 50, Some 40, Some 45])"

definition table_2012 :: csv where
  "table_2012 =
     \<lparr>csv_DATE = Some (Datetime64 dates_2012),
      csv_climate = (\<lambda>v. Some (Float64 (values_2012 v)))\<rparr>"

text \<open>A station file that has the header line and no row: every column is empty, and \<^verbatim>\<open>DATE\<close>
  has the dtype object.\<close>

definition header_only :: csv where
  "header_only = \<lparr>csv_DATE = Some (Object []), csv_climate = (\<lambda>v. Some (Float64 []))\<rparr>"

text \<open>A synthetic series of \<open>n\<close> consecutive days starting on 2013-01-01, fully populated:
  precipitation counts the days, the temperatures are constant.\<close>

definition next_day :: "date \<Rightarrow> date" where
  "next_day d =
     (if day d < days_in_month (year d) (month d) then d\<lparr>day := day d + 1\<rparr>
      else if month d < 12 then \<lparr>year = year d, month = month d + 1, day = 1\<rparr>
      else \<lparr>year = year d + 1, month = 1, day = 1\<rparr>)"

fun date_range :: "date \<Rightarrow> nat \<Rightarrow> date list" where
  "date_range d 0 = []"
| "date_range d (Suc n) = d # date_range (next_day d) n"

definition synthetic_dates :: "nat \<Rightarrow> date option list" where
  "synthetic_dates n = map Some (date_range \<lparr>year = 2013, month = 1, day = 1\<rparr> n)"

definition synthetic_values :: "nat \<Rightarrow> cvar \<Rightarrow> series" where
  "synthetic_values n v =
     map (\<lambda>k. Some (case v of PRCP \<Rightarrow> of_nat k | TMIN \<Rightarrow> 100 | TAVG \<Rightarrow> 150 | TMAX \<Rightarrow> 200))
       [0..<n]"

definition synthetic_table :: "nat \<Rightarrow> csv" where
  "synthetic_table n =
     \<lparr>csv_DATE = Some (Datetime64 (synthetic_dates n)),
      csv_climate = (\<lambda>v. Some (Float64 (synthetic_values n v)))\<rparr>"

text \<open>The same days with a minimum temperature of 10.5 degrees Celsius and, read as int64, a
  precipitation of \<open>2 ^ 53 + 1\<close>.\<close>

definition rounding_columns :: "nat \<Rightarrow> cvar \<Rightarrow> numeric" where
  "rounding_columns n v =
     (case v of
        PRCP \<Rightarrow> Int64 (replicate n 9007199254740993)
      | TMIN \<Rightarrow> Float64 (replicate n (Some 105))
      | TAVG \<Rightarrow> Float64 (replicate n (Some 150))
      | TMAX \<Rightarrow> Float64 (replicate n (Some 200)))"

definition rounding_table :: "nat \<Rightarrow> csv" where
  "rounding_table n =
     \<lparr>csv_DATE = Some (Datetime64 (synthetic_dates n)),
      csv_climate = (\<lambda>v. Some (rounding_columns n v))\<rparr>"


section \<open>The frame before \<^verbatim>\<open>dropna\<close>, in closed form\<close>

lemma positions_lt: "p \<in> set (positions m) \<Longrightarrow> p < length m"
  by (simp add: positions_def)

lemma take_rows_eq: "\<forall>p\<in>set ps. p < length xs \<Longrightarrow> take_rows ps xs = map (\<lambda>p. xs ! p) ps"
  by (simp add: take_rows_def filter_id_conv)

lemma take_rows_upt: "\<forall>p\<in>set ps. p < n \<Longrightarrow> map ((!) [0..<n]) ps = ps"
  by (simp add: map_idI)

lemma year_mask_eq:
  "map (\<lambda>y. case y of None \<Rightarrow> False | Some y \<Rightarrow> (2013::rat) \<le> y)
     (map (map_option (\<lambda>d. of_int (year d))) ds)
   = map (\<lambda>d. case d of None \<Rightarrow> False | Some d \<Rightarrow> 2013 \<le> year d) ds"
proof -
  have "(2013::rat) \<le> of_int y \<longleftrightarrow> 2013 \<le> y" for y :: int
    using of_int_le_iff [of 2013 y, where ?'a = rat] by simp
  then show ?thesis by (simp add: option.case_eq_if option.map_sel)
qed

lemma mean_notin_lags: "Mean_5d_window w \<notin> Lag v ` S"
  by auto

lemma setitem_append:
  "c \<notin> fst ` set (cols df) \<Longrightarrow> setitem c s df = df\<lparr>cols := cols df @ [(c, s)]\<rparr>"
  by (simp add: setitem_def)

lemma add_lags_eq:
  "map_of (cols df) (Clim v) = Some s \<Longrightarrow>
   add_lags v df = Inr (df\<lparr>cols := cols df
       @ map (\<lambda>i. (Lag v i, shift i s)) (backward_lags @ forward_lags)\<rparr>)"
  by (simp add: add_lags_def getitem_def and_then_def)

lemma add_mean_eq:
  "map_of (cols df) (Clim v) = Some s \<Longrightarrow> Mean_5d_window v \<notin> fst ` set (cols df) \<Longrightarrow>
   add_mean_5d_window v df
     = Inr (df\<lparr>cols := cols df @ [(Mean_5d_window v, rolling_mean 5 (shift 365 s))]\<rparr>)"
  by (simp add: add_mean_5d_window_def getitem_def and_then_def setitem_append)

lemma engineered_eq:
  assumes "reads_as t ds x"
  shows "engineered t = Inr \<lparr>index = kept_rows ds, cols =
       map (\<lambda>v. (Clim v, filtered ds x v)) climate_vars
     @ [(YEAR, map (map_option (\<lambda>d. of_int (year d))) (kept_dates ds)),
        (MONTH, map (map_option (\<lambda>d. of_nat (month d))) (kept_dates ds)),
        (DAY_OF_YEAR, map (map_option (\<lambda>d. of_nat (dayofyear d))) (kept_dates ds)),
        (WEEK_OF_YEAR, map (map_option (\<lambda>d. of_int (isoweek d))) (kept_dates ds)),
        (SEASON, map (map_option (\<lambda>d. of_nat (season (month d)))) (kept_dates ds))]
     @ concat (map (\<lambda>v. map (\<lambda>i. (Lag v i, shift i (filtered ds x v)))
                          (backward_lags @ forward_lags)) climate_vars)
     @ map (\<lambda>v. (Mean_5d_window v, rolling_mean 5 (shift 365 (filtered ds x v)))) climate_vars\<rparr>"
proof -
  have d: "csv_DATE t = Some (Datetime64 ds)"
    and c: "map_option as_float64 (csv_climate t v) = Some (x v)"
    and l: "length (x v) = length ds" for v
    using assms by (simp_all add: reads_as_def climate_vars_def) (cases v; simp)+
  have nn: "csv_climate t v \<noteq> None" for v
    using c [of v] by auto
  have s: "selected t v = Inr (x v)" for v
    using c [of v] by (auto simp: selected_def split: option.splits)
  have kl: "\<forall>p\<in>set (kept_rows ds). p < length ds"
    by (auto simp: kept_rows_def dest: positions_lt)
  define f where "f = filtered ds x"
  define cal where "cal = (\<lambda>g :: date \<Rightarrow> rat. map (map_option g) (kept_dates ds))"
  have sel: "select_columns t = Inr \<lparr>index = [0..<length ds],
        cols = [(Clim PRCP, x PRCP), (Clim TMIN, x TMIN), (Clim TAVG, x TAVG), (Clim TMAX, x TMAX)],
        DATE_column = Datetime64 ds\<rparr>"
    by (simp add: select_columns_def climate_vars_def d nn s and_then_def)
  have conv: "and_then (select_columns t) (\<lambda>df.
     and_then (convert_temperature TMIN df) (\<lambda>df.
     and_then (convert_temperature TAVG df) (\<lambda>df.
     and_then (convert_temperature TMAX df) (\<lambda>df.
     and_then (add_year df) drop_before_2013))))
     = Inr \<lparr>index = kept_rows ds,
        cols = [(Clim PRCP, f PRCP), (Clim TMIN, f TMIN), (Clim TAVG, f TAVG), (Clim TMAX, f TMAX),
                (YEAR, cal (\<lambda>d. of_int (year d)))],
        DATE_column = Datetime64 (kept_dates ds)\<rparr>"
    unfolding sel
    by (simp add: and_then_def convert_temperature_def getitem_def setitem_def add_year_def
        drop_before_2013_def boolean_index_def year_mask_eq kept_rows_def [symmetric]
        take_rows_upt kl take_rows_eq l f_def filtered_def converted_def kept_dates_def cal_def
        comp_def)
  have calendar: "add_calendar \<lparr>index = kept_rows ds,
        cols = [(Clim PRCP, f PRCP), (Clim TMIN, f TMIN), (Clim TAVG, f TAVG), (Clim TMAX, f TMAX),
                (YEAR, cal (\<lambda>d. of_int (year d)))],
        DATE_column = Datetime64 (kept_dates ds)\<rparr>
     = Inr \<lparr>index = kept_rows ds,
        cols = [(Clim PRCP, f PRCP), (Clim TMIN, f TMIN), (Clim TAVG, f TAVG), (Clim TMAX, f TMAX),
                (YEAR, cal (\<lambda>d. of_int (year d))), (MONTH, cal (\<lambda>d. of_nat (month d))),
                (DAY_OF_YEAR, cal (\<lambda>d. of_nat (dayofyear d))),
                (WEEK_OF_YEAR, cal (\<lambda>d. of_int (isoweek d))),
                (SEASON, cal (\<lambda>d. of_nat (season (month d))))],
        DATE_column = Datetime64 (kept_dates ds)\<rparr>" (is "add_calendar ?A = Inr ?B")
    by (simp add: add_calendar_def setitem_def cal_def and_then_def)
  define L where "L = (\<lambda>v. map (\<lambda>i. (Lag v i, shift i (f v))) (backward_lags @ forward_lags))"
  have lags: "for_each add_lags climate_vars ?B
     = Inr (?B\<lparr>cols := cols ?B @ L PRCP @ L TMIN @ L TAVG @ L TMAX\<rparr>)"
    by (simp add: climate_vars_def and_then_def add_lags_eq L_def)
  have keys: "Mean_5d_window v \<notin> fst ` set (L w)" for v w
    by (simp add: L_def image_Un image_image mean_notin_lags)
  have means: "for_each add_mean_5d_window climate_vars
        (?B\<lparr>cols := cols ?B @ L PRCP @ L TMIN @ L TAVG @ L TMAX\<rparr>)
     = Inr (?B\<lparr>cols := cols ?B @ L PRCP @ L TMIN @ L TAVG @ L TMAX
         @ map (\<lambda>v. (Mean_5d_window v, rolling_mean 5 (shift 365 (f v)))) climate_vars\<rparr>)"
    by (simp add: climate_vars_def and_then_def add_mean_eq image_Un keys)
  have "engineered t = and_then (and_then (select_columns t) (\<lambda>df.
     and_then (convert_temperature TMIN df) (\<lambda>df.
     and_then (convert_temperature TAVG df) (\<lambda>df.
     and_then (convert_temperature TMAX df) (\<lambda>df.
     and_then (add_year df) drop_before_2013)))))
     (\<lambda>df. and_then (add_calendar df) (\<lambda>df.
     and_then (for_each add_lags climate_vars df) (\<lambda>df.
     and_then (for_each add_mean_5d_window climate_vars df) (\<lambda>df.
       Inr (drop_DATE df)))))"
    by (simp add: engineered_def and_then_def split: sum.splits)
  also have "\<dots> = Inr (drop_DATE (?B\<lparr>cols := cols ?B @ L PRCP @ L TMIN @ L TAVG @ L TMAX
         @ map (\<lambda>v. (Mean_5d_window v, rolling_mean 5 (shift 365 (f v)))) climate_vars\<rparr>))"
    unfolding conv
    by (simp only: and_then_def sum.case calendar lags means)
  finally show ?thesis
    by (simp add: drop_DATE_def climate_vars_def L_def f_def cal_def)
qed



section \<open>Shifted series and the rolling mean, position by position\<close>

lemma length_shift: "length (shift k xs) = length xs"
  by (simp add: shift_def)

lemma length_rolling_mean: "length (rolling_mean w xs) = length xs"
  by (simp add: rolling_mean_def)

lemma shift_backward_nth:
  "p < length xs \<Longrightarrow> shift (int i) xs ! p = (if i \<le> p then xs ! (p - i) else None)"
  by (auto simp: shift_def nat_diff_distrib' of_nat_diff)

lemma shift_forward_nth:
  "p < length xs \<Longrightarrow> shift (- int i) xs ! p = (if p + i < length xs then xs ! (p + i) else None)"
  by (auto simp: shift_def nat_add_distrib)

lemma take5_drop:
  assumes "q + 5 \<le> length ys"
  shows "take 5 (drop q ys) = [ys ! q, ys ! (q + 1), ys ! (q + 2), ys ! (q + 3), ys ! (q + 4)]"
proof -
  have "length (take 5 (drop q ys)) = 5" using assms by simp
  moreover have "take 5 (drop q ys) ! j = ys ! (q + j)" if "j < 5" for j
    using that assms by simp
  ultimately show ?thesis
    by (intro nth_equalityI) (auto simp: less_Suc_eq numeral_eq_Suc add.commute)
qed

lemma mean_5d_window_nth:
  assumes "p < length f"
  shows "rolling_mean 5 (shift 365 f) ! p =
     (if 369 \<le> p \<and> f ! (p - 369) \<noteq> None \<and> f ! (p - 368) \<noteq> None \<and> f ! (p - 367) \<noteq> None
         \<and> f ! (p - 366) \<noteq> None \<and> f ! (p - 365) \<noteq> None
      then Some ((the (f ! (p - 369)) + the (f ! (p - 368)) + the (f ! (p - 367))
                  + the (f ! (p - 366)) + the (f ! (p - 365))) / 5)
      else None)"
proof (cases "p < 4")
  case True
  then show ?thesis using assms by (simp add: rolling_mean_def length_shift)
next
  case False
  define ys where "ys = shift 365 f"
  have ly: "length ys = length f" by (simp add: ys_def length_shift)
  have win: "take 5 (drop (p - 4) ys)
      = [ys ! (p - 4), ys ! (p - 3), ys ! (p - 2), ys ! (p - 1), ys ! p]"
  proof -
    have i: "p - 4 + 1 = p - 3" "p - 4 + 2 = p - 2" "p - 4 + 3 = p - 1" "p - 4 + 4 = p"
      using False by simp_all
    have "p - 4 + 5 \<le> length ys" using False assms ly by simp
    from take5_drop [OF this] show ?thesis by (simp only: i)
  qed
  have y: "ys ! q = (if 365 \<le> q then f ! (q - 365) else None)" if "q \<le> p" for q
    using shift_backward_nth [of q f 365] that assms by (simp add: ys_def)
  have r: "rolling_mean 5 ys ! p =
      (if list_all (\<lambda>x. x \<noteq> None) (take 5 (drop (p - 4) ys))
       then Some (sum_list (map the (take 5 (drop (p - 4) ys))) / 5) else None)"
    using False assms by (simp add: rolling_mean_def ly Let_def)
  show ?thesis
  proof (cases "369 \<le> p")
    case True
    then have v: "ys ! (p - 4) = f ! (p - 369)" "ys ! (p - 3) = f ! (p - 368)"
      "ys ! (p - 2) = f ! (p - 367)" "ys ! (p - 1) = f ! (p - 366)" "ys ! p = f ! (p - 365)"
      using y [of "p - 4"] y [of "p - 3"] y [of "p - 2"] y [of "p - 1"] y [of p] by auto
    from True show ?thesis
      unfolding ys_def [symmetric] r win v
      by (simp add: add.assoc)
  next
    case False
    then have "ys ! (p - 4) = None" using y [of "p - 4"] by auto
    with False show ?thesis
      unfolding ys_def [symmetric] r win by simp
  qed
qed



section \<open>Looking columns up in the closed form\<close>

lemma map_of_lagged:
  "map_of (map (\<lambda>i. (Lag w i, g i)) js) (Lag v i)
     = (if v = w \<and> i \<in> set js then Some (g i) else None)"
  by (induction js) auto

lemma map_of_lagged_other:
  "(\<And>i. k \<noteq> Lag w i) \<Longrightarrow> map_of (map (\<lambda>i. (Lag w i, g i)) js) k = None"
  by (induction js) auto

lemma reads_as_lengths:
  assumes "reads_as t ds x"
  shows "length (x v) = length ds"
  using assms by (cases v) (simp_all add: reads_as_def climate_vars_def)

lemma kept_rows_lt: "p \<in> set (kept_rows ds) \<Longrightarrow> p < length ds"
  by (auto simp: kept_rows_def dest: positions_lt)

lemma length_filtered: "length (filtered ds x v) = length (kept_rows ds)"
  by (simp add: filtered_def)

lemma length_kept_dates: "length (kept_dates ds) = length (kept_rows ds)"
  by (simp add: kept_dates_def)

lemma engineered_columns:
  assumes "reads_as t ds x"
  shows "\<exists>df. engineered t = Inr df \<and> index df = kept_rows ds
     \<and> (\<forall>v. map_of (cols df) (Clim v) = Some (filtered ds x v))
     \<and> map_of (cols df) SEASON
          = Some (map (map_option (\<lambda>d. of_nat (season (month d)))) (kept_dates ds))
     \<and> (\<forall>v i. i \<in> set (backward_lags @ forward_lags)
          \<longrightarrow> map_of (cols df) (Lag v i) = Some (shift i (filtered ds x v)))
     \<and> (\<forall>v. map_of (cols df) (Mean_5d_window v)
          = Some (rolling_mean 5 (shift 365 (filtered ds x v))))"
proof -
  note simps = climate_vars_def map_add_def map_of_lagged map_of_lagged_other
  have "map_of (cols (projr (engineered t))) (Clim v) = Some (filtered ds x v)" for v
    unfolding engineered_eq [OF assms] by (cases v) (simp_all add: simps)
  moreover have "map_of (cols (projr (engineered t))) (Mean_5d_window v)
      = Some (rolling_mean 5 (shift 365 (filtered ds x v)))" for v
    unfolding engineered_eq [OF assms] by (cases v) (simp_all add: simps)
  moreover have "map_of (cols (projr (engineered t))) (Lag v i) = Some (shift i (filtered ds x v))"
    if "i \<in> set (backward_lags @ forward_lags)" for v i
    unfolding engineered_eq [OF assms] using that by (cases v) (auto simp: simps)
  moreover have "map_of (cols (projr (engineered t))) SEASON
          = Some (map (map_option (\<lambda>d. of_nat (season (month d)))) (kept_dates ds))"
    unfolding engineered_eq [OF assms] by (simp add: simps)
  moreover have "engineered t = Inr (projr (engineered t))" "index (projr (engineered t)) = kept_rows ds"
    unfolding engineered_eq [OF assms] by simp_all
  ultimately show ?thesis by blast
qed



section \<open>Facts about the example inputs\<close>

lemma sample_reads: "reads_as sample_table sample_dates sample_values"
  by (simp add: reads_as_def sample_table_def sample_dates_def sample_values_def climate_vars_def)

lemma sample_kept: "kept_rows sample_dates = [2, 3, 4, 5]"
  by code_simp

lemma sample_filtered_PRCP: "filtered sample_dates sample_values PRCP = [Some 12, Some 0, Some 7, Some 3]"
  by code_simp

lemma sample_filtered_TMIN: "filtered sample_dates sample_values TMIN = [Some 50, Some 32, None, Some 23]"
  by code_simp

lemma year_next_day: "year d \<le> year (next_day d)"
  by (simp add: next_day_def)

lemma year_date_range: "d' \<in> set (date_range d n) \<Longrightarrow> year d \<le> year d'"
proof (induction n arbitrary: d)
  case 0
  then show ?case by simp
next
  case (Suc n)
  then show ?case using year_next_day [of d] by fastforce
qed

lemma length_date_range: "length (date_range d n) = n"
  by (induction n arbitrary: d) simp_all

lemma positions_all: "\<forall>b\<in>set bs. b \<Longrightarrow> positions bs = [0..<length bs]"
  by (auto simp: positions_def filter_id_conv)

lemma synthetic_kept: "kept_rows (synthetic_dates n) = [0..<n]"
proof -
  have "positions (map (\<lambda>d. case d of None \<Rightarrow> False | Some d \<Rightarrow> 2013 \<le> year d) (synthetic_dates n))
      = [0..<length (synthetic_dates n)]"
    using year_date_range [of _ "\<lparr>year = 2013, month = 1, day = 1\<rparr>" n]
    by (subst positions_all) (auto simp: synthetic_dates_def)
  then show ?thesis
    by (simp add: kept_rows_def synthetic_dates_def length_date_range)
qed

lemma synthetic_reads: "reads_as (synthetic_table n) (synthetic_dates n) (synthetic_values n)"
  by (simp add: reads_as_def synthetic_table_def synthetic_dates_def synthetic_values_def
      climate_vars_def length_date_range)

lemma synthetic_filtered_PRCP:
  "k < n \<Longrightarrow> filtered (synthetic_dates n) (synthetic_values n) PRCP ! k = Some (of_nat k)"
  by (simp add: filtered_def synthetic_kept converted_def synthetic_values_def)

lemma to_fahrenheit_100: "to_fahrenheit 100 = 50"
  by code_simp

lemma to_fahrenheit_150: "to_fahrenheit 150 = 59"
  by code_simp

lemma to_fahrenheit_200: "to_fahrenheit 200 = 68"
  by code_simp

lemma synthetic_filtered_temperature:
  "k < n \<Longrightarrow> v \<noteq> PRCP \<Longrightarrow> filtered (synthetic_dates n) (synthetic_values n) v ! k
     = Some (case v of PRCP \<Rightarrow> 0 | TMIN \<Rightarrow> 50 | TAVG \<Rightarrow> 59 | TMAX \<Rightarrow> 68)"
  by (cases v)
    (simp_all add: filtered_def synthetic_kept converted_def synthetic_values_def
      to_fahrenheit_100 to_fahrenheit_150 to_fahrenheit_200)


lemma cell_engineered:
  assumes "engineered t = Inr df" "map_of (cols df) c = Some s"
  shows "cell (engineered t) c p = (if p < length s then Some (s ! p) else None)"
  using assms by (simp add: cell_def)


section \<open>Lagged columns\<close>

text \<open>
  Claim C3. For every climate variable and every row \<open>r\<close> of the filtered series (the rows
  with year at least 2013, in file order), the column \<^verbatim>\<open>{var}_lag_i\<close> for \<open>i\<close> in 1..30 holds the
  variable's value at row \<open>r - i\<close>, and the column \<^verbatim>\<open>{var}_lag_-i\<close> for \<open>i\<close> in 1..4 holds the
  value at row \<open>r + i\<close>; a shift that leaves the series gives a missing value. The columns
  are those of the frame before \<^verbatim>\<open>dropna\<close>, whose rows are the rows of the filtered series.
\<close>


theorem lag_columns:
  assumes "reads_as t ds x" and "r < length (kept_rows ds)"
  shows "(\<forall>i\<in>{1..30}. cell (engineered t) (Lag v (int i)) r
            = Some (if i \<le> r then filtered ds x v ! (r - i) else None))
       \<and> (\<forall>i\<in>{1..4}. cell (engineered t) (Lag v (- int i)) r
            = Some (if r + i < length (kept_rows ds) then filtered ds x v ! (r + i) else None))"
proof -
  from engineered_columns [OF assms(1)] obtain df where
    e: "engineered t = Inr df" and
    lag: "\<And>v i. i \<in> set (backward_lags @ forward_lags)
          \<Longrightarrow> map_of (cols df) (Lag v i) = Some (shift i (filtered ds x v))"
    by blast
  have r: "r < length (filtered ds x v)" using assms(2) by (simp add: length_filtered)
  have "cell (engineered t) (Lag v (int i)) r
      = Some (if i \<le> r then filtered ds x v ! (r - i) else None)" if "i \<in> {1..30}" for i
  proof -
    have "int i \<in> set (backward_lags @ forward_lags)"
      using that by (simp add: backward_lags_def)
    from cell_engineered [OF e lag [OF this]] show ?thesis
      using r by (simp add: length_shift shift_backward_nth)
  qed
  moreover have "cell (engineered t) (Lag v (- int i)) r
      = Some (if r + i < length (kept_rows ds) then filtered ds x v ! (r + i) else None)"
    if "i \<in> {1..4}" for i
  proof -
    have "- int i \<in> uminus ` {1..4}" using that by (intro imageI) simp
    then have "- int i \<in> set (backward_lags @ forward_lags)"
      by (simp add: forward_lags_def)
    from cell_engineered [OF e lag [OF this]] show ?thesis
      using r by (simp add: length_shift shift_forward_nth length_filtered)
  qed
  ultimately show ?thesis by blast
qed

theorem lag_columns_witness:
  "reads_as sample_table sample_dates sample_values
   \<and> cell (engineered sample_table) (Lag PRCP 1) 2 = Some (Some 0)
   \<and> cell (engineered sample_table) (Lag PRCP (- 1)) 1 = Some (Some 7)
   \<and> cell (engineered sample_table) (Lag TMIN 3) 2 = Some None
   \<and> cell (engineered sample_table) (Lag TMIN (- 4)) 0 = Some None"
proof -
  have n: "2 < length (kept_rows sample_dates)" "1 < length (kept_rows sample_dates)"
    "0 < length (kept_rows sample_dates)"
    by (simp_all add: sample_kept)
  have a: "cell (engineered sample_table) (Lag PRCP 1) 2 = Some (Some 0)"
    using lag_columns [OF sample_reads n(1), of PRCP, THEN conjunct1, THEN bspec, of 1]
    by (simp add: sample_filtered_PRCP)
  have b: "cell (engineered sample_table) (Lag TMIN 3) 2 = Some None"
    using lag_columns [OF sample_reads n(1), of TMIN, THEN conjunct1, THEN bspec, of 3]
    by simp
  have c: "cell (engineered sample_table) (Lag PRCP (- 1)) 1 = Some (Some 7)"
    using lag_columns [OF sample_reads n(2), of PRCP, THEN conjunct2, THEN bspec, of 1]
    by (simp add: sample_kept sample_filtered_PRCP)
  have d: "cell (engineered sample_table) (Lag TMIN (- 4)) 0 = Some None"
    using lag_columns [OF sample_reads n(3), of TMIN, THEN conjunct2, THEN bspec, of 4]
    by (simp add: sample_kept)
  from a b c d sample_reads show ?thesis by simp
qed



section \<open>The mean over the same window one year earlier\<close>

lemma mean_5d_window_mean_of:
  assumes "p < length f"
  shows "rolling_mean 5 (shift 365 f) ! p =
     (if 369 \<le> p
      then mean_of [f ! (p - 369), f ! (p - 368), f ! (p - 367), f ! (p - 366), f ! (p - 365)]
      else None)"
  unfolding mean_5d_window_nth [OF assms] by (simp add: mean_of_def add.assoc)

lemma mean_5d_window_cell:
  assumes "reads_as t ds x" and "p < length (kept_rows ds)"
  shows "cell (engineered t) (Mean_5d_window v) p
     = Some (rolling_mean 5 (shift 365 (filtered ds x v)) ! p)"
proof -
  from engineered_columns [OF assms(1)] obtain df where
    e: "engineered t = Inr df" and
    m: "\<And>v. map_of (cols df) (Mean_5d_window v)
          = Some (rolling_mean 5 (shift 365 (filtered ds x v)))"
    by blast
  from cell_engineered [OF e m] show ?thesis
    using assms(2) by (simp add: length_rolling_mean length_shift length_filtered)
qed

text \<open>
  Claim C1. For every climate variable and every position \<open>p\<close> of the filtered series, the
  column \<^verbatim>\<open>{var}_mean_5d_window\<close> at \<open>p\<close> is the trailing five-row rolling mean of the series
  shifted by 365 positions: the mean of the values at the filtered positions \<open>p - 369\<close>, ...,
  \<open>p - 365\<close>. It is missing when fewer than five shifted values are available (\<open>p < 369\<close>),
  and, as a mean of floats, when one of the five values is missing.
\<close>

theorem mean_5d_window_column:
  assumes "reads_as t ds x" and "p < length (kept_rows ds)"
  shows "cell (engineered t) (Mean_5d_window v) p
           = Some (rolling_mean 5 (shift 365 (filtered ds x v)) ! p)
       \<and> rolling_mean 5 (shift 365 (filtered ds x v)) ! p
           = (if 369 \<le> p
              then mean_of [filtered ds x v ! (p - 369), filtered ds x v ! (p - 368),
                            filtered ds x v ! (p - 367), filtered ds x v ! (p - 366),
                            filtered ds x v ! (p - 365)]
              else None)"
  using mean_5d_window_cell [OF assms] mean_5d_window_mean_of [of p "filtered ds x v"] assms(2)
  by (simp add: length_filtered)

theorem mean_5d_window_column_witness:
  "reads_as (synthetic_table 400) (synthetic_dates 400) (synthetic_values 400)
   \<and> cell (engineered (synthetic_table 400)) (Mean_5d_window PRCP) 371 = Some (Some 4)
   \<and> cell (engineered (synthetic_table 400)) (Mean_5d_window TMIN) 399 = Some (Some 50)
   \<and> cell (engineered (synthetic_table 400)) (Mean_5d_window PRCP) 368 = Some None"
proof -
  have a: "cell (engineered (synthetic_table 400)) (Mean_5d_window PRCP) 371 = Some (Some 4)"
    using mean_5d_window_column [OF synthetic_reads, of 371 400 PRCP]
    by (simp add: synthetic_kept synthetic_filtered_PRCP mean_of_def)
  have b: "cell (engineered (synthetic_table 400)) (Mean_5d_window TMIN) 399 = Some (Some 50)"
    using mean_5d_window_column [OF synthetic_reads, of 399 400 TMIN]
    by (simp add: synthetic_kept synthetic_filtered_temperature mean_of_def)
  have c: "cell (engineered (synthetic_table 400)) (Mean_5d_window PRCP) 368 = Some None"
    using mean_5d_window_column [OF synthetic_reads, of 368 400 PRCP]
    by (simp add: synthetic_kept)
  from a b c synthetic_reads show ?thesis by simp
qed

text \<open>
  Claim C2 says that for \<open>p \<ge> 369\<close> the column holds the mean of the values at the positions
  \<open>p - 365\<close>, ..., \<open>p - 361\<close>. The code shifts first and then takes the trailing window, so
  the window is \<open>p - 369\<close>, ..., \<open>p - 365\<close>: it ends 365 rows before \<open>p\<close>, it does not start
  there. On 370 consecutive days whose precipitation counts the days, the column at position
  369 is 2, the mean of 0..4, and not 6, the mean of the values at the positions 4..8.
\<close>

theorem mean_5d_window_not_forward_counterexample:
  "cell (engineered (synthetic_table 370)) (Mean_5d_window PRCP) 369 = Some (Some 2)
   \<and> mean_of [filtered (synthetic_dates 370) (synthetic_values 370) PRCP ! (369 - 365),
              filtered (synthetic_dates 370) (synthetic_values 370) PRCP ! (369 - 364),
              filtered (synthetic_dates 370) (synthetic_values 370) PRCP ! (369 - 363),
              filtered (synthetic_dates 370) (synthetic_values 370) PRCP ! (369 - 362),
              filtered (synthetic_dates 370) (synthetic_values 370) PRCP ! (369 - 361)] = Some 6
   \<and> cell (engineered (synthetic_table 370)) (Mean_5d_window PRCP) 369
      \<noteq> Some (mean_of [filtered (synthetic_dates 370) (synthetic_values 370) PRCP ! (369 - 365),
              filtered (synthetic_dates 370) (synthetic_values 370) PRCP ! (369 - 364),
              filtered (synthetic_dates 370) (synthetic_values 370) PRCP ! (369 - 363),
              filtered (synthetic_dates 370) (synthetic_values 370) PRCP ! (369 - 362),
              filtered (synthetic_dates 370) (synthetic_values 370) PRCP ! (369 - 361)])"
proof -
  have p: "369 < length (kept_rows (synthetic_dates 370))"
    by (simp add: synthetic_kept)
  have "cell (engineered (synthetic_table 370)) (Mean_5d_window PRCP) 369 = Some (Some 2)"
    using mean_5d_window_cell [OF synthetic_reads p, of PRCP]
      mean_5d_window_mean_of [of 369 "filtered (synthetic_dates 370) (synthetic_values 370) PRCP"]
    by (simp add: length_filtered synthetic_kept synthetic_filtered_PRCP mean_of_def)
  then show ?thesis
    by (simp add: synthetic_filtered_PRCP mean_of_def)
qed


text \<open>
  Claim C2 as the code has it: for every climate variable and every position \<open>p \<ge> 369\<close> of
  the filtered series, the column \<^verbatim>\<open>{var}_mean_5d_window\<close> at \<open>p\<close> is the mean of the values at
  the filtered positions \<open>p - 369\<close>, \<open>p - 368\<close>, \<open>p - 367\<close>, \<open>p - 366\<close>, \<open>p - 365\<close>.
\<close>

theorem mean_5d_window_last_year:
  assumes "reads_as t ds x" and "369 \<le> p" and "p < length (kept_rows ds)"
  shows "cell (engineered t) (Mean_5d_window v) p
     = Some (mean_of [filtered ds x v ! (p - 369), filtered ds x v ! (p - 368),
                      filtered ds x v ! (p - 367), filtered ds x v ! (p - 366),
                      filtered ds x v ! (p - 365)])"
  using mean_5d_window_cell [OF assms(1,3)] mean_5d_window_mean_of [of p "filtered ds x v"]
    assms(2,3)
  by (simp add: length_filtered)

theorem mean_5d_window_last_year_witness:
  "reads_as (synthetic_table 370) (synthetic_dates 370) (synthetic_values 370)
   \<and> (369::nat) \<le> 369 \<and> 369 < length (kept_rows (synthetic_dates 370))
   \<and> cell (engineered (synthetic_table 370)) (Mean_5d_window PRCP) 369 = Some (Some 2)"
  using mean_5d_window_last_year [OF synthetic_reads, of 369 370 PRCP] synthetic_reads [of 370]
  by (simp add: synthetic_kept synthetic_filtered_PRCP mean_of_def)



section \<open>Dropping the rows with missing values\<close>

lemma positions_map_upt: "positions (map P [0..<n]) = filter P [0..<n]"
  by (auto simp: positions_def intro: filter_cong)

lemma map_of_map_columns:
  "map_of (map (\<lambda>(c, s). (c, g s)) cs) c = map_option g (map_of cs c)"
  by (induction cs) auto




lemma dropna_eq:
  assumes "\<forall>(c, s)\<in>set (cols df). length s = length (index df)"
  shows "dropna df = \<lparr>index = map (\<lambda>p. index df ! p) (positions (notna_rows df)),
     cols = map (\<lambda>(c, s). (c, map (\<lambda>p. s ! p) (positions (notna_rows df)))) (cols df)\<rparr>"
proof -
  have lt: "\<forall>p\<in>set (positions (notna_rows df)). p < length (index df)"
    by (auto dest: positions_lt simp: notna_rows_def)
  have "map (\<lambda>(c, s). (c, take_rows (positions (notna_rows df)) s)) (cols df)
      = map (\<lambda>(c, s). (c, map (\<lambda>p. s ! p) (positions (notna_rows df)))) (cols df)"
    using assms lt by (intro map_cong refl) (auto simp: take_rows_eq)
  then show ?thesis
    using lt by (simp add: dropna_def Let_def take_rows_eq)
qed

lemma dropna_complete:
  "(c, s) \<in> set (cols (dropna df)) \<Longrightarrow> None \<notin> set s"
proof -
  assume "(c, s) \<in> set (cols (dropna df))"
  then obtain s0 where s0: "(c, s0) \<in> set (cols df)"
    and s: "s = take_rows (positions (notna_rows df)) s0"
    by (auto simp: dropna_def Let_def)
  have "s0 ! p \<noteq> None" if "p \<in> set (positions (notna_rows df))" for p
  proof -
    from that have "p < length (index df)" "notna_rows df ! p"
      by (auto simp: positions_def notna_rows_def)
    then show ?thesis using s0 by (auto simp: notna_rows_def list_all_iff)
  qed
  then show ?thesis by (fastforce simp: s take_rows_def)
qed



section \<open>The complete rows of the engineered frame\<close>

lemma set_climate_vars: "set climate_vars = UNIV"
proof -
  have "v \<in> set climate_vars" for v by (cases v) (simp_all add: climate_vars_def)
  then show ?thesis by blast
qed

lemma set_backward_lags: "set backward_lags = int ` {1..30}"
proof -
  have "i \<in> int ` {1..30}" if "1 \<le> i" "i \<le> 30" for i :: int
    using that by (intro image_eqI [where x = "nat i"]) auto
  then show ?thesis by (auto simp: backward_lags_def)
qed

lemma set_forward_lags: "set forward_lags = (\<lambda>i. - int i) ` {1..4}"
proof -
  have "i \<in> (\<lambda>i. - int i) ` {1..4}" if "- 4 \<le> i" "i \<le> - 1" for i :: int
    using that by (intro image_eqI [where x = "nat (- i)"]) auto
  then show ?thesis by (auto simp: forward_lags_def)
qed

lemma list_all_concat_map:
  "list_all Q (concat (map (\<lambda>v. map (g v) js) vs)) \<longleftrightarrow> (\<forall>v\<in>set vs. \<forall>i\<in>set js. Q (g v i))"
  by (induction vs) (auto simp: list_all_iff)

lemma kept_rows_Some:
  assumes "q \<in> set (kept_rows ds)"
  shows "\<exists>d. ds ! q = Some d \<and> 2013 \<le> year d"
  using assms by (auto simp: kept_rows_def positions_def split: option.splits)

lemma kept_rows_iff:
  "q \<in> set (kept_rows ds) \<longleftrightarrow> q < length ds \<and> (\<exists>d. ds ! q = Some d \<and> 2013 \<le> year d)"
  by (auto simp: kept_rows_def positions_def split: option.splits)

lemma kept_dates_nth:
  assumes "p < length (kept_rows ds)"
  shows "\<exists>d. kept_dates ds ! p = Some d \<and> ds ! (kept_rows ds ! p) = Some d \<and> 2013 \<le> year d"
  using kept_rows_Some [of "kept_rows ds ! p" ds] assms by (simp add: kept_dates_def)

lemma engineered_lengths:
  assumes "reads_as t ds x" and "engineered t = Inr df"
  shows "\<forall>(c, s)\<in>set (cols df). length s = length (index df)"
  using assms(2) unfolding engineered_eq [OF assms(1)]
  by (auto simp: length_filtered length_kept_dates length_shift length_rolling_mean)

lemma complete_row_iff:
  assumes "reads_as t ds x" and "engineered t = Inr df" and "p < length (kept_rows ds)"
  shows "list_all (\<lambda>(c, s). p < length s \<and> s ! p \<noteq> None) (cols df) \<longleftrightarrow>
     (\<forall>v. filtered ds x v ! p \<noteq> None
        \<and> (\<forall>i\<in>set (backward_lags @ forward_lags). shift i (filtered ds x v) ! p \<noteq> None)
        \<and> rolling_mean 5 (shift 365 (filtered ds x v)) ! p \<noteq> None)"
proof -
  obtain d where d: "kept_dates ds ! p = Some d" using kept_dates_nth [OF assms(3)] by blast
  have cal: "map (map_option g) (kept_dates ds) ! p \<noteq> None" for g :: "date \<Rightarrow> rat"
    using assms(3) d by (simp add: length_kept_dates)
  have c: "cols df = map (\<lambda>v. (Clim v, filtered ds x v)) climate_vars
     @ [(YEAR, map (map_option (\<lambda>d. of_int (year d))) (kept_dates ds)),
        (MONTH, map (map_option (\<lambda>d. of_nat (month d))) (kept_dates ds)),
        (DAY_OF_YEAR, map (map_option (\<lambda>d. of_nat (dayofyear d))) (kept_dates ds)),
        (WEEK_OF_YEAR, map (map_option (\<lambda>d. of_int (isoweek d))) (kept_dates ds)),
        (SEASON, map (map_option (\<lambda>d. of_nat (season (month d)))) (kept_dates ds))]
     @ concat (map (\<lambda>v. map (\<lambda>i. (Lag v i, shift i (filtered ds x v)))
                          (backward_lags @ forward_lags)) climate_vars)
     @ map (\<lambda>v. (Mean_5d_window v, rolling_mean 5 (shift 365 (filtered ds x v)))) climate_vars"
    using assms(2) unfolding engineered_eq [OF assms(1)] by auto
  let ?Q = "\<lambda>(c :: colname, s :: series). p < length s \<and> s ! p \<noteq> None"
  have A: "list_all ?Q (map (\<lambda>v. (Clim v, filtered ds x v)) climate_vars)
      \<longleftrightarrow> (\<forall>v. filtered ds x v ! p \<noteq> None)"
    using assms(3) by (simp add: list_all_iff set_climate_vars length_filtered)
  have B: "list_all ?Q
       [(YEAR, map (map_option (\<lambda>d. of_int (year d))) (kept_dates ds)),
        (MONTH, map (map_option (\<lambda>d. of_nat (month d))) (kept_dates ds)),
        (DAY_OF_YEAR, map (map_option (\<lambda>d. of_nat (dayofyear d))) (kept_dates ds)),
        (WEEK_OF_YEAR, map (map_option (\<lambda>d. of_int (isoweek d))) (kept_dates ds)),
        (SEASON, map (map_option (\<lambda>d. of_nat (season (month d)))) (kept_dates ds))]"
    using assms(3) cal by (simp add: length_kept_dates)
  have C: "list_all ?Q (concat (map (\<lambda>v. map (\<lambda>i. (Lag v i, shift i (filtered ds x v)))
                          (backward_lags @ forward_lags)) climate_vars))
      \<longleftrightarrow> (\<forall>v. \<forall>i\<in>set (backward_lags @ forward_lags). shift i (filtered ds x v) ! p \<noteq> None)"
    unfolding list_all_concat_map using assms(3)
    by (simp add: set_climate_vars length_shift length_filtered)
  have D: "list_all ?Q
        (map (\<lambda>v. (Mean_5d_window v, rolling_mean 5 (shift 365 (filtered ds x v)))) climate_vars)
      \<longleftrightarrow> (\<forall>v. rolling_mean 5 (shift 365 (filtered ds x v)) ! p \<noteq> None)"
    using assms(3)
    by (simp add: list_all_iff set_climate_vars length_filtered length_shift length_rolling_mean)
  show ?thesis
    unfolding c list_all_append A C D using B by blast
qed



section \<open>The returned frame\<close>

lemma complete_rows_eq:
  "complete_rows df
     = filter (\<lambda>p. list_all (\<lambda>(c, s). p < length s \<and> s ! p \<noteq> None) (cols df))
         [0..<length (index df)]"
  by (simp add: complete_rows_def notna_rows_def positions_map_upt)

lemma complete_rows_lt: "p \<in> set (complete_rows df) \<Longrightarrow> p < length (index df)"
  by (simp add: complete_rows_eq)


lemma output_rows:
  assumes "reads_as t ds x"
  shows "\<exists>df. engineered t = Inr df \<and> index df = kept_rows ds
     \<and> (\<forall>(c, s)\<in>set (cols df). length s = length (kept_rows ds))
     \<and> feature_engineering_noaa_climate_data t
         = Inr \<lparr>index = map (\<lambda>p. kept_rows ds ! p) (complete_rows df),
                cols = map (\<lambda>(c, s). (c, map (\<lambda>p. s ! p) (complete_rows df))) (cols df)\<rparr>"
proof -
  from engineered_columns [OF assms] obtain df where
    e: "engineered t = Inr df" and i: "index df = kept_rows ds" by blast
  from engineered_lengths [OF assms e] have l: "\<forall>(c, s)\<in>set (cols df). length s = length (index df)" .
  from dropna_eq [OF l] e i l show ?thesis
    by (simp add: feature_engineering_noaa_climate_data_def and_then_def complete_rows_def)
qed

lemma output_labels:
  assumes "reads_as t ds x" and "engineered t = Inr df"
  shows "row_labels (feature_engineering_noaa_climate_data t)
     = Some (map (\<lambda>p. kept_rows ds ! p) (complete_rows df))"
  using output_rows [OF assms(1)] assms(2) by (auto simp: row_labels_def)

lemma output_cell:
  assumes "reads_as t ds x" and "engineered t = Inr df" and "k < length (complete_rows df)"
  shows "cell (feature_engineering_noaa_climate_data t) c k
     = cell (engineered t) c (complete_rows df ! k)"
proof -
  from output_rows [OF assms(1)] assms(2) have
    l: "\<forall>(c, s)\<in>set (cols df). length s = length (kept_rows ds)" and
    i: "index df = kept_rows ds" and
    f: "feature_engineering_noaa_climate_data t
         = Inr \<lparr>index = map (\<lambda>p. kept_rows ds ! p) (complete_rows df),
                cols = map (\<lambda>(c, s). (c, map (\<lambda>p. s ! p) (complete_rows df))) (cols df)\<rparr>"
    by auto
  have p: "complete_rows df ! k < length (kept_rows ds)"
    using complete_rows_lt [of "complete_rows df ! k" df] assms(3) i by simp
  show ?thesis
  proof (cases "map_of (cols df) c")
    case None
    then show ?thesis by (simp add: f assms(2) cell_def map_of_map_columns)
  next
    case (Some s)
    then have "(c, s) \<in> set (cols df)" by (rule map_of_SomeD)
    with l have "length s = length (kept_rows ds)" by auto
    with Some p assms(3) show ?thesis
      by (simp add: f assms(2) cell_def map_of_map_columns)
  qed
qed

lemma mean_5d_window_present:
  "p < length f \<Longrightarrow> rolling_mean 5 (shift 365 f) ! p \<noteq> None \<longleftrightarrow>
     369 \<le> p \<and> f ! (p - 369) \<noteq> None \<and> f ! (p - 368) \<noteq> None \<and> f ! (p - 367) \<noteq> None
       \<and> f ! (p - 366) \<noteq> None \<and> f ! (p - 365) \<noteq> None"
  by (simp add: mean_5d_window_nth del: not_None_eq)

lemma complete_row_bounds:
  assumes "reads_as t ds x" and "engineered t = Inr df" and "p \<in> set (complete_rows df)"
  shows "369 \<le> p \<and> p + 4 < length (kept_rows ds)"
proof -
  have i: "index df = kept_rows ds"
    using engineered_columns [OF assms(1)] assms(2) by auto
  have p: "p < length (kept_rows ds)" using complete_rows_lt [OF assms(3)] i by simp
  have "list_all (\<lambda>(c, s). p < length s \<and> s ! p \<noteq> None) (cols df)"
    using assms(3) by (simp add: complete_rows_eq)
  then have a: "\<forall>i\<in>set (backward_lags @ forward_lags). shift i (filtered ds x PRCP) ! p \<noteq> None"
    and b: "rolling_mean 5 (shift 365 (filtered ds x PRCP)) ! p \<noteq> None"
    unfolding complete_row_iff [OF assms(1,2) p] by blast+
  have "- int 4 \<in> set (backward_lags @ forward_lags)"
    unfolding set_append set_forward_lags by (intro UnI2 imageI) simp
  with a have "shift (- int 4) (filtered ds x PRCP) ! p \<noteq> None" by blast
  then have "p + 4 < length (kept_rows ds)"
    using p shift_forward_nth [of p "filtered ds x PRCP" 4]
    by (simp add: length_filtered split: if_splits)
  moreover have "369 \<le> p"
    using b p by (simp add: mean_5d_window_nth length_filtered split: if_splits)
  ultimately show ?thesis by simp
qed

lemma complete_rows_all_present:
  assumes "reads_as t ds x" and "engineered t = Inr df"
    and "\<forall>v. \<forall>q<length (kept_rows ds). filtered ds x v ! q \<noteq> None"
  shows "complete_rows df = [369..<length (kept_rows ds) - 4]"
proof -
  let ?n = "length (kept_rows ds)"
  have i: "index df = kept_rows ds"
    using engineered_columns [OF assms(1)] assms(2) by auto
  have pres: "filtered ds x v ! q \<noteq> None" if "q < ?n" for v q
    using assms(3) that by blast
  have "list_all (\<lambda>(c, s). p < length s \<and> s ! p \<noteq> None) (cols df) \<longleftrightarrow> 369 \<le> p \<and> p + 4 < ?n"
    if p: "p < ?n" for p
  proof
    assume "list_all (\<lambda>(c, s). p < length s \<and> s ! p \<noteq> None) (cols df)"
    then have "p \<in> set (complete_rows df)" using p i by (simp add: complete_rows_eq)
    from complete_row_bounds [OF assms(1,2) this] show "369 \<le> p \<and> p + 4 < ?n" .
  next
    assume b: "369 \<le> p \<and> p + 4 < ?n"
    have "shift i (filtered ds x v) ! p \<noteq> None" if "i \<in> set (backward_lags @ forward_lags)" for i v
    proof -
      from that consider j where "j \<in> {1..30}" "i = int j" | j where "j \<in> {1..4}" "i = - int j"
        unfolding set_append set_backward_lags set_forward_lags by blast
      then show ?thesis
      proof cases
        case 1
        moreover have "filtered ds x v ! (p - j) \<noteq> None"
          using p by (intro pres) simp
        ultimately show ?thesis using b p
          by (simp add: shift_backward_nth length_filtered)
      next
        case 2
        moreover from 2 b have "filtered ds x v ! (p + j) \<noteq> None"
          by (intro pres) simp
        ultimately show ?thesis using b p
          by (simp add: shift_forward_nth length_filtered)
      qed
    qed
    moreover have "rolling_mean 5 (shift 365 (filtered ds x v)) ! p \<noteq> None" for v
    proof -
      have "filtered ds x v ! (p - j) \<noteq> None" for j
        using p by (intro pres) simp
      then show ?thesis
        using b p by (simp only: mean_5d_window_present length_filtered) simp
    qed
    ultimately show "list_all (\<lambda>(c, s). p < length s \<and> s ! p \<noteq> None) (cols df)"
      unfolding complete_row_iff [OF assms(1,2) p] using pres [OF p] by blast
  qed
  then have "complete_rows df = filter (\<lambda>p. 369 \<le> p \<and> p + 4 < ?n) [0..<?n]"
    unfolding complete_rows_eq i by (intro filter_cong refl) simp
  also have "\<dots> = [369..<?n - 4]"
  proof (rule sorted_distinct_set_unique)
    show "set (filter (\<lambda>p. 369 \<le> p \<and> p + 4 < ?n) [0..<?n]) = set [369..<?n - 4]" by auto
  qed (simp_all add: sorted_wrt_filter)
  finally show ?thesis .
qed



section \<open>Which rows survive when nothing is missing in the file\<close>

lemma filtered_nth:
  assumes "reads_as t ds x" and "p < length (kept_rows ds)"
  shows "filtered ds x v ! p
     = map_option (\<lambda>a. if v = PRCP then a else to_fahrenheit a) (x v ! (kept_rows ds ! p))"
proof -
  have "kept_rows ds ! p < length (x v)"
    using kept_rows_lt [of "kept_rows ds ! p" ds] assms by (simp add: reads_as_lengths)
  then show ?thesis
    using assms(2) by (simp add: filtered_def converted_def option.map_ident)
qed

lemma all_present_filtered:
  assumes "reads_as t ds x" and "list_all (\<lambda>v. list_all (\<lambda>a. a \<noteq> None) (x v)) climate_vars"
  shows "\<forall>v. \<forall>q<length (kept_rows ds). filtered ds x v ! q \<noteq> None"
proof (intro allI impI)
  fix v q assume q: "q < length (kept_rows ds)"
  have "kept_rows ds ! q < length (x v)"
    using kept_rows_lt [of "kept_rows ds ! q" ds] assms(1) q by (simp add: reads_as_lengths)
  moreover have "None \<notin> set (x v)"
    using assms(2) by (auto simp: list_all_iff set_climate_vars)
  ultimately have "x v ! (kept_rows ds ! q) \<noteq> None"
    by (metis nth_mem)
  then show "filtered ds x v ! q \<noteq> None"
    by (simp add: filtered_nth [OF assms(1) q])
qed

lemma synthetic_all_present:
  "list_all (\<lambda>v. list_all (\<lambda>a. a \<noteq> None) (synthetic_values n v)) climate_vars"
  by (simp add: list_all_iff synthetic_values_def)

lemma map_nth_upt_sub: "b \<le> n \<Longrightarrow> map (\<lambda>p. [0..<n] ! p) [a..<b] = [a..<b]"
  by (intro map_idI) simp

text \<open>
  Claim C8. When every raw value of the four variables is present and the filtered series
  has \<open>n\<close> rows, the rows of the returned frame are exactly the filtered positions \<open>p\<close> with
  \<open>369 \<le> p \<le> n - 5\<close>, in order: none when \<open>n < 374\<close>, and \<open>n - 373\<close> of them otherwise
  (27 for 400 fully populated days).
\<close>

theorem surviving_rows_all_present:
  assumes "reads_as t ds x"
    and "list_all (\<lambda>v. list_all (\<lambda>a. a \<noteq> None) (x v)) climate_vars"
  shows "row_labels (feature_engineering_noaa_climate_data t)
           = Some (map (\<lambda>p. kept_rows ds ! p) [369..<length (kept_rows ds) - 4])
       \<and> map_option length (row_labels (feature_engineering_noaa_climate_data t))
           = Some (length (kept_rows ds) - 373)
       \<and> (length (kept_rows ds) < 374
            \<longrightarrow> row_labels (feature_engineering_noaa_climate_data t) = Some [])"
proof -
  from engineered_columns [OF assms(1)] obtain df where e: "engineered t = Inr df" by blast
  have c: "complete_rows df = [369..<length (kept_rows ds) - 4]"
    using complete_rows_all_present [OF assms(1) e all_present_filtered [OF assms]] .
  show ?thesis
    unfolding output_labels [OF assms(1) e] c by simp
qed

theorem surviving_rows_all_present_witness:
  "reads_as (synthetic_table 400) (synthetic_dates 400) (synthetic_values 400)
   \<and> list_all (\<lambda>v. list_all (\<lambda>a. a \<noteq> None) (synthetic_values 400 v)) climate_vars
   \<and> row_labels (feature_engineering_noaa_climate_data (synthetic_table 400)) = Some [369..<396]
   \<and> map_option length (row_labels (feature_engineering_noaa_climate_data (synthetic_table 400)))
       = Some 27
   \<and> row_labels (feature_engineering_noaa_climate_data (synthetic_table 370)) = Some []"
proof -
  have a: "row_labels (feature_engineering_noaa_climate_data (synthetic_table 400)) = Some [369..<396]"
    "map_option length (row_labels (feature_engineering_noaa_climate_data (synthetic_table 400)))
       = Some 27"
    using surviving_rows_all_present [OF synthetic_reads synthetic_all_present, of 400]
    by (simp_all add: synthetic_kept map_nth_upt_sub)
  have b: "row_labels (feature_engineering_noaa_climate_data (synthetic_table 370)) = Some []"
    using surviving_rows_all_present [OF synthetic_reads synthetic_all_present, of 370]
    by (simp add: synthetic_kept)
  from a b synthetic_reads synthetic_all_present show ?thesis by simp
qed



section \<open>No missing value in the returned frame\<close>



lemma output_complete:
  assumes "reads_as t ds x" and "engineered t = Inr df" and "k < length (complete_rows df)"
  shows "cell (feature_engineering_noaa_climate_data t) c k \<noteq> Some None"
proof
  assume a: "cell (feature_engineering_noaa_climate_data t) c k = Some None"
  from output_rows [OF assms(1)] assms(2) have
    f: "feature_engineering_noaa_climate_data t = Inr (dropna df)"
    by (simp add: feature_engineering_noaa_climate_data_def and_then_def)
  from a obtain s where s: "map_of (cols (dropna df)) c = Some s" "k < length s" "s ! k = None"
    by (auto simp: cell_def f split: option.splits if_splits)
  from s(1) have "(c, s) \<in> set (cols (dropna df))" by (rule map_of_SomeD)
  from dropna_complete [OF this] s(2,3) show False by (metis nth_mem)
qed




section \<open>Single rows of the returned frame\<close>

lemma engineered_Clim_cell:
  assumes "reads_as t ds x" and "p < length (kept_rows ds)"
  shows "cell (engineered t) (Clim v) p = Some (filtered ds x v ! p)"
proof -
  from engineered_columns [OF assms(1)] obtain df where
    e: "engineered t = Inr df" and
    m: "\<And>v. map_of (cols df) (Clim v) = Some (filtered ds x v)"
    by blast
  from cell_engineered [OF e m] show ?thesis
    using assms(2) by (simp add: length_filtered)
qed

lemma engineered_SEASON_cell:
  assumes "reads_as t ds x" and "p < length (kept_rows ds)"
  shows "\<exists>d. ds ! (kept_rows ds ! p) = Some d
     \<and> cell (engineered t) SEASON p = Some (Some (of_nat ((month d mod 12 + 3) div 3)))"
proof -
  from engineered_columns [OF assms(1)] obtain df where
    e: "engineered t = Inr df" and
    m: "map_of (cols df) SEASON
          = Some (map (map_option (\<lambda>d. of_nat (season (month d)))) (kept_dates ds))"
    by blast
  from kept_dates_nth [OF assms(2)] obtain d where
    d: "kept_dates ds ! p = Some d" "ds ! (kept_rows ds ! p) = Some d" by blast
  from cell_engineered [OF e m, of p] d show ?thesis
    using assms(2) by (simp add: length_kept_dates season_def)
qed

lemma output_row:
  assumes "reads_as t ds x" and "row_labels (feature_engineering_noaa_climate_data t) = Some ls"
    and "k < length ls"
  shows "\<exists>p<length (kept_rows ds). ls ! k = kept_rows ds ! p
     \<and> (\<forall>c. cell (feature_engineering_noaa_climate_data t) c k = cell (engineered t) c p
           \<and> cell (feature_engineering_noaa_climate_data t) c k \<noteq> Some None)"
proof -
  from engineered_columns [OF assms(1)] obtain df where
    e: "engineered t = Inr df" and i: "index df = kept_rows ds" by blast
  from output_labels [OF assms(1) e] assms(2)
  have ls: "ls = map (\<lambda>p. kept_rows ds ! p) (complete_rows df)" by simp
  with assms(3) have k: "k < length (complete_rows df)" by simp
  then have "complete_rows df ! k < length (kept_rows ds)"
    using complete_rows_lt [of "complete_rows df ! k" df] i by simp
  with k ls output_cell [OF assms(1) e k] output_complete [OF assms(1) e k] show ?thesis
    by (intro exI [where x = "complete_rows df ! k"]) simp
qed

lemma sample_date_2: "sample_dates ! 2 = Some \<lparr>year = 2013, month = 1, day = 1\<rparr>"
  by (simp add: sample_dates_def)


section \<open>Unit conversion\<close>

lemma round_half_even_of_int: "round_half_even (of_int k) = k"
  by (simp add: round_half_even_def)

lemma binade_of_int:
  assumes "j \<noteq> 0"
  shows "binade (of_int j) = bitlen \<bar>j\<bar> - 1"
proof -
  have pos: "0 < \<bar>j\<bar>" using assms by simp
  have q: "quotient_of \<bar>of_int j :: rat\<bar> = (\<bar>j\<bar>, 1)"
  proof -
    have "\<bar>of_int j :: rat\<bar> = Fract \<bar>j\<bar> 1"
      by (simp add: of_int_rat flip: of_int_abs)
    then show ?thesis by (simp add: quotient_of_Fract)
  qed
  have b1: "bitlen 1 = 1" by code_simp
  have ge: "1 \<le> bitlen \<bar>j\<bar>" using pos by (simp add: bitlen_alt_def)
  from bitlen_bounds [OF pos] have "(2::int) ^ nat (bitlen \<bar>j\<bar> - 1) \<le> \<bar>j\<bar>" by simp
  then have "(of_int ((2::int) ^ nat (bitlen \<bar>j\<bar> - 1)) :: rat) \<le> of_int \<bar>j\<bar>"
    by (simp only: of_int_le_iff)
  then have "pow2 (bitlen \<bar>j\<bar> - 1) \<le> \<bar>of_int j\<bar>"
    using ge by (simp add: pow2_def)
  then show ?thesis
    by (simp add: binade_def q b1)
qed

lemma float64_of_int_exact:
  assumes "\<bar>j\<bar> \<le> 2 ^ 53"
  shows "float64 (of_int j) = of_int j"
proof (cases "j = 0")
  case True
  then show ?thesis by (simp add: float64_def)
next
  case False
  then have pos: "0 < \<bar>j\<bar>" by simp
  have ge: "1 \<le> bitlen \<bar>j\<bar>" using pos by (simp add: bitlen_alt_def)
  show ?thesis
  proof (cases "\<bar>j\<bar> = 2 ^ 53")
    case True
    then consider "j = 2 ^ 53" | "j = - (2 ^ 53)" by linarith
    then show ?thesis
    proof cases
      case 1
      have "float64 (of_int (2 ^ 53)) = of_int (2 ^ 53)" by code_simp
      with 1 show ?thesis by simp
    next
      case 2
      have "float64 (of_int (- (2 ^ 53))) = of_int (- (2 ^ 53))" by code_simp
      with 2 show ?thesis by simp
    qed
  next
    case ne: False
    with assms have lt: "\<bar>j\<bar> < 2 ^ 53" by simp
    then have "bitlen \<bar>j\<bar> \<le> 53"
      by (simp add: bitlen_le_iff_power)
    define m where "m = nat (53 - bitlen \<bar>j\<bar>)"
    have e: "max (binade (of_int j)) (- 1022) - 52 = - int m"
      using ge \<open>bitlen \<bar>j\<bar> \<le> 53\<close> by (simp add: binade_of_int [OF False] m_def)
    have u: "pow2 (- int m) = 1 / 2 ^ m"
      by (cases "m = 0") (simp_all add: pow2_def)
    have "(of_int j :: rat) / (1 / 2 ^ m) = of_int (j * 2 ^ m)" by simp
    then have "round_half_even (of_int j / (1 / 2 ^ m)) = j * 2 ^ m"
      by (simp only: round_half_even_of_int)
    then show ?thesis
      using False by (simp add: float64_def e u Let_def)
  qed
qed

lemma output_Clim_cell:
  assumes "reads_as t ds x"
    and "row_labels (feature_engineering_noaa_climate_data t) = Some ls"
    and "k < length ls"
  shows "ls ! k < length ds
     \<and> x v ! (ls ! k) \<noteq> None
     \<and> cell (feature_engineering_noaa_climate_data t) (Clim v) k
         = Some (map_option (\<lambda>a. if v = PRCP then a else to_fahrenheit a) (x v ! (ls ! k)))"
proof -
  from output_row [OF assms] obtain p where p: "p < length (kept_rows ds)"
    and l: "ls ! k = kept_rows ds ! p"
    and c: "cell (feature_engineering_noaa_climate_data t) (Clim v) k = cell (engineered t) (Clim v) p"
    and n: "cell (feature_engineering_noaa_climate_data t) (Clim v) k \<noteq> Some None"
    by blast
  have "ls ! k < length ds" using kept_rows_lt [of "kept_rows ds ! p" ds] p l by simp
  moreover have v: "cell (feature_engineering_noaa_climate_data t) (Clim v) k
      = Some (map_option (\<lambda>a. if v = PRCP then a else to_fahrenheit a) (x v ! (ls ! k)))"
    unfolding c engineered_Clim_cell [OF assms(1) p] filtered_nth [OF assms(1) p] l ..
  moreover from n v have "x v ! (ls ! k) \<noteq> None" by auto
  ultimately show ?thesis by simp
qed

lemma rounding_reads:
  "reads_as (rounding_table n) (synthetic_dates n) (\<lambda>v. as_float64 (rounding_columns n v))"
proof -
  have "length (as_float64 (rounding_columns n v)) = n" for v
    by (cases v) (simp_all add: rounding_columns_def)
  then show ?thesis
    by (simp add: reads_as_def rounding_table_def climate_vars_def synthetic_dates_def
        length_date_range)
qed

lemma rounding_all_present:
  "list_all (\<lambda>v. list_all (\<lambda>a. a \<noteq> None) (as_float64 (rounding_columns n v))) climate_vars"
  by (simp add: list_all_iff climate_vars_def rounding_columns_def)

lemma rounding_labels:
  "row_labels (feature_engineering_noaa_climate_data (rounding_table 374)) = Some [369]"
proof -
  from engineered_columns [OF rounding_reads, of 374] obtain df where
    e: "engineered (rounding_table 374) = Inr df" by blast
  have "complete_rows df = [369..<length (kept_rows (synthetic_dates 374)) - 4]"
    using complete_rows_all_present [OF rounding_reads e
        all_present_filtered [OF rounding_reads rounding_all_present]] .
  then have "complete_rows df = [369]"
    by (simp add: synthetic_kept upt_rec)
  with output_labels [OF rounding_reads e] show ?thesis
    by (simp add: synthetic_kept)
qed

lemma to_fahrenheit_105: "to_fahrenheit 105 = 1790884539321549 / 35184372088832"
  by code_simp

lemma float64_above_2_53: "float64 9007199254740993 = 9007199254740992"
  by code_simp

text \<open>
  Claim C6 says that the temperatures of a returned row are \<open>value / 10 * 9 / 5 + 32\<close> of the
  raw values and that \<^verbatim>\<open>PRCP\<close> is the raw value unchanged. The code computes in float64, with
  the double \<^verbatim>\<open>9 / 5\<close> as a factor, and rounds after each operation. On 374 consecutive
  days with a raw minimum temperature of 105 and, read as int64, a precipitation of
  \<open>2 ^ 53 + 1\<close>, the one returned row holds the double 50.900000000000006 as \<^verbatim>\<open>TMIN\<close>, which
  is neither the number 50.9 nor the claim's formula evaluated in float64 from left to right
  (the double nearest to 50.9), and it holds \<open>2 ^ 53\<close> as \<^verbatim>\<open>PRCP\<close>.
\<close>

theorem conversion_is_rounded_counterexample:
  "rounding_columns 374 TMIN = Float64 (replicate 374 (Some 105))
   \<and> cell (feature_engineering_noaa_climate_data (rounding_table 374)) (Clim TMIN) 0
       = Some (Some (1790884539321549 / 35184372088832))
   \<and> (1790884539321549 / 35184372088832 :: rat) \<noteq> 105 / 10 * 9 / 5 + 32
   \<and> (1790884539321549 / 35184372088832 :: rat)
       \<noteq> float64 (float64 (float64 (float64 (105 / 10) * 9) / 5) + 32)
   \<and> rounding_columns 374 PRCP = Int64 (replicate 374 9007199254740993)
   \<and> cell (feature_engineering_noaa_climate_data (rounding_table 374)) (Clim PRCP) 0
       = Some (Some 9007199254740992)"
proof -
  have a: "cell (feature_engineering_noaa_climate_data (rounding_table 374)) (Clim TMIN) 0
       = Some (Some (1790884539321549 / 35184372088832))"
    using output_Clim_cell [OF rounding_reads rounding_labels, of 0 TMIN]
    by (simp add: rounding_columns_def to_fahrenheit_105)
  have b: "cell (feature_engineering_noaa_climate_data (rounding_table 374)) (Clim PRCP) 0
       = Some (Some 9007199254740992)"
    using output_Clim_cell [OF rounding_reads rounding_labels, of 0 PRCP]
    by (simp add: rounding_columns_def float64_above_2_53)
  have c: "float64 (float64 (float64 (float64 (105 / 10) * 9) / 5) + 32)
      = 7163538157286195 / 140737488355328"
    by code_simp
  from a b show ?thesis
    unfolding c by (simp add: rounding_columns_def)
qed

text \<open>
  Claim C6 as the code has it. For every row of the returned frame, with index label \<open>l\<close>
  (its position in the file), the values of \<^verbatim>\<open>TMIN\<close>, \<^verbatim>\<open>TAVG\<close> and \<^verbatim>\<open>TMAX\<close> are the raw values
  of row \<open>l\<close> transformed by \<open>value / 10 * (9 / 5) + 32\<close> in float64 arithmetic, each of the
  three operations and the constant \<open>9 / 5\<close> rounded to the nearest double; a raw 100 gives
  exactly 50. The value of \<^verbatim>\<open>PRCP\<close> is the raw value of row \<open>l\<close> as a double: unchanged when
  the column was read as float64, and when it was read as int64 and the integer is at most
  \<open>2 ^ 53\<close> in magnitude, and the nearest double otherwise.
\<close>

theorem converted_values_in_output:
  assumes "reads_as t ds x"
    and "row_labels (feature_engineering_noaa_climate_data t) = Some ls"
    and "k < length ls"
    and "csv_climate t v = Some c"
  shows "ls ! k < length ds
     \<and> as_float64 c ! (ls ! k) \<noteq> None
     \<and> cell (feature_engineering_noaa_climate_data t) (Clim v) k
         = Some (map_option
             (\<lambda>a. if v = PRCP then a
                  else float64 (float64 (float64 (a / 10) * float64 (9 / 5)) + 32))
             (as_float64 c ! (ls ! k)))
     \<and> (\<forall>s. c = Float64 s \<longrightarrow> as_float64 c ! (ls ! k) = s ! (ls ! k))
     \<and> (\<forall>js. c = Int64 js \<longrightarrow>
           as_float64 c ! (ls ! k) = Some (float64 (of_int (js ! (ls ! k))))
         \<and> (\<bar>js ! (ls ! k)\<bar> \<le> 2 ^ 53
              \<longrightarrow> as_float64 c ! (ls ! k) = Some (of_int (js ! (ls ! k)))))
     \<and> to_fahrenheit 100 = 50"
proof -
  have x: "x v = as_float64 c"
    using assms(1,4) by (cases v) (simp_all add: reads_as_def climate_vars_def)
  from output_Clim_cell [OF assms(1-3), of v]
  have l: "ls ! k < length ds" and n: "as_float64 c ! (ls ! k) \<noteq> None"
    and v: "cell (feature_engineering_noaa_climate_data t) (Clim v) k
         = Some (map_option (\<lambda>a. if v = PRCP then a else to_fahrenheit a)
             (as_float64 c ! (ls ! k)))"
    unfolding x by blast+
  have f: "(\<lambda>a. if v = PRCP then a else to_fahrenheit a)
      = (\<lambda>a. if v = PRCP then a
              else float64 (float64 (float64 (a / 10) * float64 (9 / 5)) + 32))"
    by (rule ext) (simp only: to_fahrenheit_def)
  have i: "as_float64 c ! (ls ! k) = Some (float64 (of_int (js ! (ls ! k))))
         \<and> (\<bar>js ! (ls ! k)\<bar> \<le> 2 ^ 53
              \<longrightarrow> as_float64 c ! (ls ! k) = Some (of_int (js ! (ls ! k))))"
    if "c = Int64 js" for js
  proof -
    have "length js = length ds"
      using reads_as_lengths [OF assms(1), of v] x that by simp
    with l that show ?thesis by (simp add: float64_of_int_exact)
  qed
  have v': "cell (feature_engineering_noaa_climate_data t) (Clim v) k
         = Some (map_option
             (\<lambda>a. if v = PRCP then a
                  else float64 (float64 (float64 (a / 10) * float64 (9 / 5)) + 32))
             (as_float64 c ! (ls ! k)))"
    using v unfolding f .
  have s: "\<forall>s. c = Float64 s \<longrightarrow> as_float64 c ! (ls ! k) = s ! (ls ! k)"
    by simp
  from i have j: "\<forall>js. c = Int64 js \<longrightarrow>
           as_float64 c ! (ls ! k) = Some (float64 (of_int (js ! (ls ! k))))
         \<and> (\<bar>js ! (ls ! k)\<bar> \<le> 2 ^ 53
              \<longrightarrow> as_float64 c ! (ls ! k) = Some (of_int (js ! (ls ! k))))"
    by blast
  from l n v' s j to_fahrenheit_100 show ?thesis by blast
qed

theorem converted_values_in_output_witness:
  "reads_as (synthetic_table 400) (synthetic_dates 400) (synthetic_values 400)
   \<and> row_labels (feature_engineering_noaa_climate_data (synthetic_table 400)) = Some [369..<396]
   \<and> cell (feature_engineering_noaa_climate_data (synthetic_table 400)) (Clim TMIN) 0
       = Some (Some 50)
   \<and> cell (feature_engineering_noaa_climate_data (synthetic_table 400)) (Clim TMAX) 26
       = Some (Some 68)
   \<and> cell (feature_engineering_noaa_climate_data (synthetic_table 400)) (Clim PRCP) 3
       = Some (Some 372)
   \<and> cell (feature_engineering_noaa_climate_data (rounding_table 374)) (Clim TMIN) 0
       = Some (Some (1790884539321549 / 35184372088832))"
proof -
  have l: "row_labels (feature_engineering_noaa_climate_data (synthetic_table 400))
      = Some [369..<396]"
    using output_labels [OF synthetic_reads, of 400]
      complete_rows_all_present [OF synthetic_reads _
        all_present_filtered [OF synthetic_reads synthetic_all_present], of 400]
      engineered_columns [OF synthetic_reads, of 400]
    by (auto simp: synthetic_kept map_nth_upt_sub)
  have c: "csv_climate (synthetic_table 400) v = Some (Float64 (synthetic_values 400 v))" for v
    by (simp add: synthetic_table_def)
  have f: "float64 (float64 (float64 10 * float64 (9 / 5)) + 32) = 50"
    "float64 (float64 (float64 20 * float64 (9 / 5)) + 32) = 68"
    "float64 (float64 (float64 (21 / 2) * float64 (9 / 5)) + 32)
       = 1790884539321549 / 35184372088832"
    by code_simp+
  have a: "cell (feature_engineering_noaa_climate_data (synthetic_table 400)) (Clim TMIN) 0
       = Some (Some 50)"
    using converted_values_in_output [OF synthetic_reads l _ c, of 0 TMIN]
    by (simp add: synthetic_values_def f)
  have b: "cell (feature_engineering_noaa_climate_data (synthetic_table 400)) (Clim TMAX) 26
       = Some (Some 68)"
    using converted_values_in_output [OF synthetic_reads l _ c, of 26 TMAX]
    by (simp add: synthetic_values_def f)
  have d: "cell (feature_engineering_noaa_climate_data (synthetic_table 400)) (Clim PRCP) 3
       = Some (Some 372)"
    using converted_values_in_output [OF synthetic_reads l _ c, of 3 PRCP]
    by (simp add: synthetic_values_def)
  have r: "csv_climate (rounding_table 374) TMIN = Some (Float64 (replicate 374 (Some 105)))"
    by (simp add: rounding_table_def rounding_columns_def)
  have e: "cell (feature_engineering_noaa_climate_data (rounding_table 374)) (Clim TMIN) 0
       = Some (Some (1790884539321549 / 35184372088832))"
    using converted_values_in_output [OF rounding_reads rounding_labels _ r, of 0]
    by (simp add: f)
  from l a b d e synthetic_reads show ?thesis by simp
qed


section \<open>Season\<close>

text \<open>
  Claim C7. For every row, of the filtered series and of the returned frame, the column
  \<^verbatim>\<open>SEASON\<close> is \<open>(month mod 12 + 3) div 3\<close> for the month of the row's date. The formula
  always lies in 1..4; it sends the months 12, 1, 2 to 1, the months 3, 4, 5 to 2, the months
  6, 7, 8 to 3 and the months 9, 10, 11 to 4.
\<close>

theorem season_column:
  assumes "reads_as t ds x"
  shows "(\<forall>p<length (kept_rows ds). \<exists>d. ds ! (kept_rows ds ! p) = Some d
            \<and> cell (engineered t) SEASON p = Some (Some (of_nat ((month d mod 12 + 3) div 3))))
     \<and> (\<forall>ls k. row_labels (feature_engineering_noaa_climate_data t) = Some ls \<and> k < length ls
          \<longrightarrow> (\<exists>d. ds ! (ls ! k) = Some d
                \<and> cell (feature_engineering_noaa_climate_data t) SEASON k
                    = Some (Some (of_nat ((month d mod 12 + 3) div 3)))))
     \<and> (\<forall>m. season m = (m mod 12 + 3) div 3 \<and> 1 \<le> season m \<and> season m \<le> 4)
     \<and> season 12 = 1 \<and> season 1 = 1 \<and> season 2 = 1
     \<and> season 3 = 2 \<and> season 4 = 2 \<and> season 5 = 2
     \<and> season 6 = 3 \<and> season 7 = 3 \<and> season 8 = 3
     \<and> season 9 = 4 \<and> season 10 = 4 \<and> season 11 = 4"
proof -
  have a: "\<forall>p<length (kept_rows ds). \<exists>d. ds ! (kept_rows ds ! p) = Some d
            \<and> cell (engineered t) SEASON p = Some (Some (of_nat ((month d mod 12 + 3) div 3)))"
    using engineered_SEASON_cell [OF assms] by blast
  have b: "\<exists>d. ds ! (ls ! k) = Some d
          \<and> cell (feature_engineering_noaa_climate_data t) SEASON k
              = Some (Some (of_nat ((month d mod 12 + 3) div 3)))"
    if "row_labels (feature_engineering_noaa_climate_data t) = Some ls" "k < length ls" for ls k
  proof -
    from output_row [OF assms that] obtain p where p: "p < length (kept_rows ds)"
      and l: "ls ! k = kept_rows ds ! p"
      and c: "cell (feature_engineering_noaa_climate_data t) SEASON k = cell (engineered t) SEASON p"
      by blast
    from engineered_SEASON_cell [OF assms p] show ?thesis unfolding c l .
  qed
  have c: "season m = (m mod 12 + 3) div 3 \<and> 1 \<le> season m \<and> season m \<le> 4" for m
    unfolding season_def by (simp add: div_le_mono less_Suc_eq_le)
  from a b c show ?thesis by (simp add: season_def)
qed

theorem season_column_witness:
  "reads_as sample_table sample_dates sample_values
   \<and> cell (engineered sample_table) SEASON 0 = Some (Some 1)"
proof -
  have "0 < length (kept_rows sample_dates)" by (simp add: sample_kept)
  with season_column [OF sample_reads, THEN conjunct1, rule_format, of 0]
  have "cell (engineered sample_table) SEASON 0 = Some (Some 1)"
    by (auto simp: sample_kept sample_date_2)
  with sample_reads show ?thesis by simp
qed



section \<open>The year filter\<close>

lemma filtered_eq:
  assumes "reads_as t ds x"
  shows "filtered ds x v
     = map (\<lambda>l. map_option (\<lambda>a. if v = PRCP then a else to_fahrenheit a) (x v ! l))
         (kept_rows ds)"
proof (rule nth_equalityI)
  show "length (filtered ds x v) = length (map (\<lambda>l. map_option
      (\<lambda>a. if v = PRCP then a else to_fahrenheit a) (x v ! l)) (kept_rows ds))"
    by (simp add: length_filtered)
next
  fix p assume "p < length (filtered ds x v)"
  then have p: "p < length (kept_rows ds)" by (simp add: length_filtered)
  from filtered_nth [OF assms p] p
  show "filtered ds x v ! p = map (\<lambda>l. map_option
      (\<lambda>a. if v = PRCP then a else to_fahrenheit a) (x v ! l)) (kept_rows ds) ! p"
    by simp
qed

lemma shift_1_sample: "shift 1 [Some 12, Some 0, Some 7, Some (3::rat)] = [None, Some 12, Some 0, Some 7]"
  by code_simp

text \<open>
  Claim C5. The rows of the frame before \<^verbatim>\<open>dropna\<close> are exactly the rows of the file whose
  date has a year of at least 2013, so a row dated before 2013 is in no returned frame and
  a row dated 2013-01-01 is a row of the filtered series (it is returned when it survives
  \<^verbatim>\<open>dropna\<close>). The filtered series of a variable holds the converted values (for a
  temperature, \<open>to_fahrenheit\<close> of the raw value) of the retained rows only, and every lag column and every window-mean column is computed from that
  series: no value of an excluded row enters them.
\<close>

theorem year_filter_before_lags:
  assumes "reads_as t ds x"
  shows "row_labels (engineered t) = Some (kept_rows ds)
     \<and> (\<forall>l. l \<in> set (kept_rows ds)
              \<longleftrightarrow> l < length ds \<and> (\<exists>d. ds ! l = Some d \<and> 2013 \<le> year d))
     \<and> (\<exists>ls. row_labels (feature_engineering_noaa_climate_data t) = Some ls
           \<and> set ls \<subseteq> set (kept_rows ds)
           \<and> (\<forall>l<length ds. \<forall>d. ds ! l = Some d \<and> year d < 2013 \<longrightarrow> l \<notin> set ls))
     \<and> (\<forall>v. filtered ds x v
           = map (\<lambda>l. map_option (\<lambda>a. if v = PRCP then a else to_fahrenheit a) (x v ! l))
               (kept_rows ds))
     \<and> (\<forall>v. \<forall>i\<in>set (backward_lags @ forward_lags).
           column (engineered t) (Lag v i) = Some (shift i (filtered ds x v)))
     \<and> (\<forall>v. column (engineered t) (Mean_5d_window v)
           = Some (rolling_mean 5 (shift 365 (filtered ds x v))))"
proof -
  from engineered_columns [OF assms] obtain df where
    e: "engineered t = Inr df" and i: "index df = kept_rows ds"
    and lag: "\<And>v i. i \<in> set (backward_lags @ forward_lags)
          \<Longrightarrow> map_of (cols df) (Lag v i) = Some (shift i (filtered ds x v))"
    and m: "\<And>v. map_of (cols df) (Mean_5d_window v)
          = Some (rolling_mean 5 (shift 365 (filtered ds x v)))"
    by blast
  let ?ls = "map (\<lambda>p. kept_rows ds ! p) (complete_rows df)"
  have s: "set ?ls \<subseteq> set (kept_rows ds)"
    using complete_rows_lt [of _ df] i by auto
  have "l \<notin> set ?ls" if "ds ! l = Some d" "year d < 2013" for l d
  proof
    assume "l \<in> set ?ls"
    with s have "l \<in> set (kept_rows ds)" by blast
    from kept_rows_Some [OF this] that show False by simp
  qed
  with s output_labels [OF assms e]
  have "\<exists>ls. row_labels (feature_engineering_noaa_climate_data t) = Some ls
           \<and> set ls \<subseteq> set (kept_rows ds)
           \<and> (\<forall>l<length ds. \<forall>d. ds ! l = Some d \<and> year d < 2013 \<longrightarrow> l \<notin> set ls)"
    by (intro exI [where x = ?ls]) blast
  moreover have "row_labels (engineered t) = Some (kept_rows ds)"
    by (simp add: row_labels_def e i)
  moreover have "\<forall>v. \<forall>i\<in>set (backward_lags @ forward_lags).
           column (engineered t) (Lag v i) = Some (shift i (filtered ds x v))"
    using lag by (simp add: column_def e)
  moreover have "\<forall>v. column (engineered t) (Mean_5d_window v)
           = Some (rolling_mean 5 (shift 365 (filtered ds x v)))"
    using m by (simp add: column_def e)
  ultimately show ?thesis
    using kept_rows_iff [of _ ds] filtered_eq [OF assms] by blast
qed

theorem year_filter_before_lags_witness:
  "reads_as sample_table sample_dates sample_values
   \<and> row_labels (engineered sample_table) = Some [2, 3, 4, 5]
   \<and> column (engineered sample_table) (Lag PRCP 1) = Some [None, Some 12, Some 0, Some 7]"
proof -
  have "(1::int) \<in> set (backward_lags @ forward_lags)"
    by (simp add: backward_lags_def)
  with year_filter_before_lags [OF sample_reads]
  have "row_labels (engineered sample_table) = Some (kept_rows sample_dates)"
    "column (engineered sample_table) (Lag PRCP 1)
       = Some (shift 1 (filtered sample_dates sample_values PRCP))"
    by blast+
  with sample_reads show ?thesis
    by (simp add: sample_kept sample_filtered_PRCP shift_1_sample)
qed


section \<open>An input that is empty after filtering\<close>

lemma kept_rows_empty:
  assumes "list_all (\<lambda>d. case d of None \<Rightarrow> False | Some d \<Rightarrow> year d < 2013) ds"
  shows "kept_rows ds = []"
proof -
  have "\<not> (case ds ! p of None \<Rightarrow> False | Some d \<Rightarrow> 2013 \<le> year d)" if "p < length ds" for p
  proof -
    from assms that have "case ds ! p of None \<Rightarrow> False | Some d \<Rightarrow> year d < 2013"
      by (simp add: list_all_length)
    then show ?thesis by (auto split: option.splits)
  qed
  then show ?thesis
    by (auto simp: kept_rows_def positions_def filter_empty_conv)
qed

lemma reads_2012: "reads_as table_2012 dates_2012 values_2012"
  by (simp add: reads_as_def table_2012_def dates_2012_def values_2012_def climate_vars_def)

text \<open>
  Claim C9 says that an input that parses, has the required columns and has no row of 2013
  or later never makes the function raise. A file with the header line and no row is such
  an input: \<^verbatim>\<open>read_csv\<close> reads it, all five columns are there, and no row has a year of 2013
  or more. Its \<^verbatim>\<open>DATE\<close> column has no cell to parse and keeps the dtype object, so line 31
  raises \<^verbatim>\<open>AttributeError\<close> at the \<^verbatim>\<open>.dt\<close> accessor.
\<close>

theorem header_only_raises_counterexample:
  "csv_DATE header_only = Some (Object [])
   \<and> csv_climate header_only PRCP = Some (Float64 [])
   \<and> csv_climate header_only TMIN = Some (Float64 [])
   \<and> csv_climate header_only TAVG = Some (Float64 [])
   \<and> csv_climate header_only TMAX = Some (Float64 [])
   \<and> feature_engineering_noaa_climate_data header_only = Inl AttributeError"
  by (simp add: header_only_def feature_engineering_noaa_climate_data_def engineered_def
      select_columns_def selected_def climate_vars_def and_then_def convert_temperature_def
      getitem_def setitem_def add_year_def)

text \<open>
  Claim C9 as the code has it. For every input with at least one row whose \<^verbatim>\<open>DATE\<close> column
  was read as dates and whose four climate columns were read as numbers, and whose rows are
  all dated before 2013, the function raises nothing: it returns a frame with no rows, which
  has all the 149 feature columns, each of them empty.
\<close>

theorem empty_after_filtering:
  assumes "reads_as t ds x"
    and "ds \<noteq> []"
    and "list_all (\<lambda>d. case d of None \<Rightarrow> False | Some d \<Rightarrow> year d < 2013) ds"
  shows "row_labels (feature_engineering_noaa_climate_data t) = Some []
     \<and> column_names (feature_engineering_noaa_climate_data t)
         = Some (map Clim climate_vars @ [YEAR, MONTH, DAY_OF_YEAR, WEEK_OF_YEAR, SEASON]
             @ concat (map (\<lambda>v. map (Lag v) (backward_lags @ forward_lags)) climate_vars)
             @ map Mean_5d_window climate_vars)
     \<and> (\<forall>c. column (feature_engineering_noaa_climate_data t) c = None
            \<or> column (feature_engineering_noaa_climate_data t) c = Some [])"
proof -
  have k: "kept_rows ds = []" using kept_rows_empty [OF assms(3)] .
  from output_rows [OF assms(1)] obtain df where
    e: "engineered t = Inr df" and i: "index df = kept_rows ds"
    and f: "feature_engineering_noaa_climate_data t
         = Inr \<lparr>index = map (\<lambda>p. kept_rows ds ! p) (complete_rows df),
                cols = map (\<lambda>(c, s). (c, map (\<lambda>p. s ! p) (complete_rows df))) (cols df)\<rparr>"
    by blast
  have c: "complete_rows df = []"
    by (simp add: complete_rows_eq i k)
  have n: "map fst (cols df)
      = map Clim climate_vars @ [YEAR, MONTH, DAY_OF_YEAR, WEEK_OF_YEAR, SEASON]
             @ concat (map (\<lambda>v. map (Lag v) (backward_lags @ forward_lags)) climate_vars)
             @ map Mean_5d_window climate_vars"
    using e unfolding engineered_eq [OF assms(1)]
    by (auto simp: comp_def map_concat)
  have mf: "map fst (map (\<lambda>(c, s). (c, g s)) cs) = map fst cs"
    for g :: "series \<Rightarrow> series" and cs :: "(colname \<times> series) list"
    by (induction cs) auto
  have "column_names (feature_engineering_noaa_climate_data t) = Some (map fst (cols df))"
    by (simp add: column_names_def f mf del: map_map)
  with n have "column_names (feature_engineering_noaa_climate_data t)
         = Some (map Clim climate_vars @ [YEAR, MONTH, DAY_OF_YEAR, WEEK_OF_YEAR, SEASON]
             @ concat (map (\<lambda>v. map (Lag v) (backward_lags @ forward_lags)) climate_vars)
             @ map Mean_5d_window climate_vars)"
    by (simp only:)
  moreover have "column (feature_engineering_noaa_climate_data t) c = None
            \<or> column (feature_engineering_noaa_climate_data t) c = Some []" for c
    by (cases "map_of (cols df) c") (simp_all add: column_def f c map_of_map_columns)
  moreover have "row_labels (feature_engineering_noaa_climate_data t) = Some []"
    by (simp add: row_labels_def f c)
  ultimately show ?thesis by blast
qed

theorem empty_after_filtering_witness:
  "reads_as table_2012 dates_2012 values_2012
   \<and> dates_2012 \<noteq> []
   \<and> list_all (\<lambda>d. case d of None \<Rightarrow> False | Some d \<Rightarrow> year d < 2013) dates_2012
   \<and> row_labels (feature_engineering_noaa_climate_data table_2012) = Some []
   \<and> map_option length (column_names (feature_engineering_noaa_climate_data table_2012))
       = Some 149"
proof -
  have a: "list_all (\<lambda>d. case d of None \<Rightarrow> False | Some d \<Rightarrow> year d < 2013) dates_2012"
    by (simp add: dates_2012_def)
  have b: "dates_2012 \<noteq> []"
    by (simp add: dates_2012_def)
  from empty_after_filtering [OF reads_2012 b a] a b reads_2012 show ?thesis
    by (simp add: climate_vars_def backward_lags_def forward_lags_def)
qed


end
